theory Spec2Isabelle
  imports Main "HOL-Library.Word"
begin

section \<open>InstitutionalStaking: data model\<close>

text \<open>
  The contract \<^verbatim>\<open>contracts/InstitutionalStaking.sol\<close> (Solidity 0.8.24).  Every
  \<^verbatim>\<open>uint256\<close> is a natural number below \<open>2 ^ 256\<close>; Solidity 0.8 checks every
  \<open>+\<close>, \<open>-\<close> and \<open>*\<close> and reverts with \<open>Panic(0x11)\<close> when the result leaves
  that range, which the three \<open>checked_\<close> functions write out.  An \<^verbatim>\<open>address\<close> is
  a 160-bit word, so the \<^verbatim>\<open>mapping(address => Account)\<close> is a total function from
  a finite type, every key initially holding the all-zero struct.
\<close>

type_synonym address = "160 word"

definition UINT256_RANGE :: nat where
  "UINT256_RANGE = 2 ^ 256"

definition checked_add :: "nat \<Rightarrow> nat \<Rightarrow> nat option" where
  "checked_add a b = (if a + b < UINT256_RANGE then Some (a + b) else None)"

definition checked_sub :: "nat \<Rightarrow> nat \<Rightarrow> nat option" where
  "checked_sub a b = (if b \<le> a then Some (a - b) else None)"

definition checked_mul :: "nat \<Rightarrow> nat \<Rightarrow> nat option" where
  "checked_mul a b = (if a * b < UINT256_RANGE then Some (a * b) else None)"

text \<open>The literal \<^verbatim>\<open>1e18\<close> of the emission arithmetic.\<close>

definition SCALE :: nat where
  "SCALE = 1000000000000000000"

text \<open>\<^verbatim>\<open>SECONDS_PER_YEAR = 365 days\<close> and \<^verbatim>\<open>ANNUAL_RATE_BPS = 500\<close>.\<close>

definition SECONDS_PER_YEAR :: nat where
  "SECONDS_PER_YEAR = 365 * 86400"

definition ANNUAL_RATE_BPS :: nat where
  "ANNUAL_RATE_BPS = 500"

record Account =
  deposited :: nat
  staked :: nat
  rewardsAccrued :: nat
  lastUpdate :: nat
  stakeStart :: nat
  rewardRemainder :: nat

definition zeroAccount :: Account where
  "zeroAccount = \<lparr>deposited = 0, staked = 0, rewardsAccrued = 0, lastUpdate = 0,
     stakeStart = 0, rewardRemainder = 0\<rparr>"

text \<open>
  The custom errors of the contract, those of the OpenZeppelin 5 modifiers it uses
  (\<^verbatim>\<open>whenNotPaused\<close>, \<^verbatim>\<open>whenPaused\<close>, \<^verbatim>\<open>onlyRole\<close>), the arithmetic panic, and one
  error for a reverting \<^verbatim>\<open>safeTransfer\<close>/\<^verbatim>\<open>safeTransferFrom\<close>.
\<close>

datatype error =
    InsufficientBalance nat nat
  | InvalidAmount
  | NothingStaked
  | ZeroAddress
  | EnforcedPause
  | ExpectedPause
  | AccessControlUnauthorizedAccount address
  | Panic
  | CustodyTransferFailed

text \<open>The events of the contract, with their arguments in the order of the source.\<close>

datatype event =
    Deposited address nat
  | Deposit address address nat
  | Staked address nat
  | Stake address nat
  | Withdrawn address nat nat
  | RewardRateUpdated nat nat
  | RewardsAccrued address nat
  | Unstaked address nat
  | Withdraw address nat nat
  | Paused address
  | Unpaused address

text \<open>
  What a call does outside the ledger: the events it emits and the token transfers it
  asks for (\<open>SafeTransferFrom token from amount\<close> pulls into the contract,
  \<open>SafeTransfer token to amount\<close> pays out of it).
\<close>

datatype effect =
    Emit event
  | SafeTransferFrom address address nat
  | SafeTransfer address address nat

text \<open>
  The storage of the contract.  \<open>paused\<close> is the flag of \<^verbatim>\<open>Pausable\<close>,
  \<open>adminRole\<close> is \<^verbatim>\<open>hasRole(ADMIN_ROLE, _)\<close> of \<^verbatim>\<open>AccessControl\<close>, and \<open>effects\<close>
  is the trace of events and transfers of the calls so far.
\<close>

record state =
  STAKING_TOKEN :: address
  rewardRate :: nat
  accounts :: "address \<Rightarrow> Account"
  totalStaked :: nat
  paused :: bool
  adminRole :: "address \<Rightarrow> bool"
  effects :: "effect list"

text \<open>
  What a call sees of its transaction: \<^verbatim>\<open>msg.sender\<close>, \<^verbatim>\<open>block.timestamp\<close>, and
  whether the token contract carries out the one transfer the call asks for (the token
  is an external contract: a transfer the holder cannot fund reverts).
\<close>

record env =
  sender :: address
  timestamp :: nat
  custodyOk :: bool

text \<open>
  The result of running a function body: \<open>Done s\<close> when it ran to its end, or
  \<open>Reverted e s\<close> when it stopped at a \<^verbatim>\<open>revert\<close>, with the storage \<open>s\<close> as the
  body had written it up to there.
\<close>

datatype 's outcome = Done 's | Reverted error 's

definition storeAccount :: "address \<Rightarrow> Account \<Rightarrow> state \<Rightarrow> state" where
  "storeAccount user acct s = s\<lparr>accounts := (accounts s)(user := acct)\<rparr>"

definition perform :: "effect \<Rightarrow> state \<Rightarrow> state" where
  "perform eff s = s\<lparr>effects := effects s @ [eff]\<rparr>"

definition emit :: "event \<Rightarrow> state \<Rightarrow> state" where
  "emit ev s = perform (Emit ev) s"

section \<open>The accrual engine\<close>

text \<open>
  \<^verbatim>\<open>_updateRewards(Account storage acct, address user)\<close>, always called with
  \<open>acct = accounts[user]\<close>.  The product \<^verbatim>\<open>acct.staked * rewardRate * delta\<close> is two
  checked multiplications, left to right.
\<close>

definition updateRewards :: "env \<Rightarrow> address \<Rightarrow> state \<Rightarrow> state outcome" where
  "updateRewards e user s =
     (let acct = accounts s user in
      if lastUpdate acct = 0 then
        Done (storeAccount user (acct\<lparr>lastUpdate := timestamp e\<rparr>) s)
      else if 0 < staked acct then
        (case checked_sub (timestamp e) (lastUpdate acct) of
           None \<Rightarrow> Reverted Panic s
         | Some delta \<Rightarrow>
             if 0 < delta then
               (case checked_mul (staked acct) (rewardRate s) of
                  None \<Rightarrow> Reverted Panic s
                | Some sr \<Rightarrow>
               (case checked_mul sr delta of
                  None \<Rightarrow> Reverted Panic s
                | Some raw \<Rightarrow>
               (case checked_add raw (rewardRemainder acct) of
                  None \<Rightarrow> Reverted Panic s
                | Some totalScaled \<Rightarrow>
                    let rewards = totalScaled div SCALE;
                        acct1 = acct\<lparr>rewardRemainder := totalScaled mod SCALE\<rparr>
                    in if 0 < rewards then
                         (case checked_add (rewardsAccrued acct1) rewards of
                            None \<Rightarrow> Reverted Panic (storeAccount user acct1 s)
                          | Some ra \<Rightarrow>
                              Done (storeAccount user
                                      (acct1\<lparr>rewardsAccrued := ra, lastUpdate := timestamp e\<rparr>)
                                      (emit (RewardsAccrued user rewards) s)))
                       else Done (storeAccount user (acct1\<lparr>lastUpdate := timestamp e\<rparr>) s))))
             else Done (storeAccount user (acct\<lparr>lastUpdate := timestamp e\<rparr>) s))
      else Done (storeAccount user (acct\<lparr>lastUpdate := timestamp e\<rparr>) s))"

text \<open>
  \<^verbatim>\<open>pendingRewards(address user)\<close>, a view: the value it returns, or the panic of its
  checked arithmetic.  It takes the difference to \<open>lastUpdate\<close> without the two guards
  of \<open>updateRewards\<close>.
\<close>

definition pendingRewards :: "env \<Rightarrow> address \<Rightarrow> state \<Rightarrow> error + nat" where
  "pendingRewards e user s =
     (let acct = accounts s user in
      if staked acct = 0 then Inr (rewardsAccrued acct)
      else
        (case checked_sub (timestamp e) (lastUpdate acct) of
           None \<Rightarrow> Inl Panic
         | Some delta \<Rightarrow>
        (case checked_mul (staked acct) (rewardRate s) of
           None \<Rightarrow> Inl Panic
         | Some sr \<Rightarrow>
        (case checked_mul sr delta of
           None \<Rightarrow> Inl Panic
         | Some raw \<Rightarrow>
        (case checked_add raw (rewardRemainder acct) of
           None \<Rightarrow> Inl Panic
         | Some totalScaled \<Rightarrow>
        (case checked_add (rewardsAccrued acct) (totalScaled div SCALE) of
           None \<Rightarrow> Inl Panic
         | Some claimable \<Rightarrow> Inr claimable))))))"

text \<open>
  Committing at a list of checkpoints, one call of \<open>updateRewards\<close> per checkpoint, each
  in a transaction of its own; a revert stops the sequence.
\<close>

fun commitEach :: "env list \<Rightarrow> address \<Rightarrow> state \<Rightarrow> state outcome" where
  "commitEach [] user s = Done s"
| "commitEach (e # es) user s =
     (case updateRewards e user s of
        Reverted err s' \<Rightarrow> Reverted err s'
      | Done s' \<Rightarrow> commitEach es user s')"

section \<open>The external functions\<close>

text \<open>
  Each external function is its body, run on the storage, inside a transaction: when
  the body reverts, the EVM discards every write it made and the caller gets the error;
  \<open>transact\<close> is that boundary.  The token call is the last external interaction of a
  body and reports only success or failure, so the \<^verbatim>\<open>nonReentrant\<close> guard, which
  a call always finds open, is left out.
\<close>

definition transact :: "state \<Rightarrow> state outcome \<Rightarrow> error option \<times> state" where
  "transact s r = (case r of Done s' \<Rightarrow> (None, s') | Reverted err _ \<Rightarrow> (Some err, s))"

text \<open>
  \<^verbatim>\<open>constructor(IERC20 _stakingToken, uint256 _rewardRate, address admin)\<close>.  Of its
  two role grants only \<^verbatim>\<open>ADMIN_ROLE\<close> is kept, the one role the functions of the
  contract ask for.
\<close>

definition constructor :: "address \<Rightarrow> nat \<Rightarrow> address \<Rightarrow> error + state" where
  "constructor stakingToken initialRate admin =
     (if stakingToken = 0 then Inl ZeroAddress
      else Inr \<lparr>STAKING_TOKEN = stakingToken, rewardRate = initialRate,
                accounts = (\<lambda>_. zeroAccount), totalStaked = 0, paused = False,
                adminRole = (\<lambda>a. a = admin), effects = []\<rparr>)"

text \<open>\<^verbatim>\<open>deposit(uint256 amount)\<close>.\<close>

definition deposit_uint256_body :: "env \<Rightarrow> nat \<Rightarrow> state \<Rightarrow> state outcome" where
  "deposit_uint256_body e amount s =
     (if paused s then Reverted EnforcedPause s
      else if amount = 0 then Reverted InvalidAmount s
      else
        (case updateRewards e (sender e) s of
           Reverted err s1 \<Rightarrow> Reverted err s1
         | Done s1 \<Rightarrow>
             if \<not> custodyOk e then Reverted CustodyTransferFailed s1
             else
               let s2 = perform (SafeTransferFrom (STAKING_TOKEN s1) (sender e) amount) s1;
                   acct = accounts s2 (sender e)
               in (case checked_add (deposited acct) amount of
                     None \<Rightarrow> Reverted Panic s2
                   | Some d \<Rightarrow>
                       Done (emit (Deposited (sender e) amount)
                               (storeAccount (sender e) (acct\<lparr>deposited := d\<rparr>) s2)))))"

definition deposit_uint256 :: "env \<Rightarrow> nat \<Rightarrow> state \<Rightarrow> error option \<times> state" where
  "deposit_uint256 e amount s = transact s (deposit_uint256_body e amount s)"

text \<open>\<^verbatim>\<open>deposit(address token, uint256 amount)\<close>: no call of \<^verbatim>\<open>_updateRewards\<close>.\<close>

definition deposit_address_uint256_body ::
  "env \<Rightarrow> address \<Rightarrow> nat \<Rightarrow> state \<Rightarrow> state outcome" where
  "deposit_address_uint256_body e token amount s =
     (if paused s then Reverted EnforcedPause s
      else if amount = 0 then Reverted InvalidAmount s
      else if token = 0 then Reverted ZeroAddress s
      else if \<not> custodyOk e then Reverted CustodyTransferFailed s
      else Done (emit (Deposit (sender e) token amount)
                   (perform (SafeTransferFrom token (sender e) amount) s)))"

definition deposit_address_uint256 ::
  "env \<Rightarrow> address \<Rightarrow> nat \<Rightarrow> state \<Rightarrow> error option \<times> state" where
  "deposit_address_uint256 e token amount s =
     transact s (deposit_address_uint256_body e token amount s)"

text \<open>\<^verbatim>\<open>stake(uint256 amount)\<close>.\<close>

definition stake_body :: "env \<Rightarrow> nat \<Rightarrow> state \<Rightarrow> state outcome" where
  "stake_body e amount s =
     (if paused s then Reverted EnforcedPause s
      else if amount = 0 then Reverted InvalidAmount s
      else
        (case checked_sub (deposited (accounts s (sender e))) (staked (accounts s (sender e))) of
           None \<Rightarrow> Reverted Panic s
         | Some idle \<Rightarrow>
             if idle < amount then Reverted (InsufficientBalance idle amount) s
             else
               (case updateRewards e (sender e) s of
                  Reverted err s1 \<Rightarrow> Reverted err s1
                | Done s1 \<Rightarrow>
                    let acct = accounts s1 (sender e);
                        acct1 = (if staked acct = 0 then acct\<lparr>stakeStart := timestamp e\<rparr>
                                 else acct);
                        s2 = storeAccount (sender e) acct1 s1
                    in (case checked_add (staked acct1) amount of
                          None \<Rightarrow> Reverted Panic s2
                        | Some st \<Rightarrow>
                            let s3 = storeAccount (sender e) (acct1\<lparr>staked := st\<rparr>) s2
                            in (case checked_add (totalStaked s3) amount of
                                  None \<Rightarrow> Reverted Panic s3
                                | Some ts \<Rightarrow>
                                    Done (emit (Stake (sender e) amount)
                                            (emit (Staked (sender e) amount)
                                               (s3\<lparr>totalStaked := ts\<rparr>))))))))"

definition stake :: "env \<Rightarrow> nat \<Rightarrow> state \<Rightarrow> error option \<times> state" where
  "stake e amount s = transact s (stake_body e amount s)"

text \<open>\<^verbatim>\<open>unstake(uint256 amount)\<close>.\<close>

definition unstake_body :: "env \<Rightarrow> nat \<Rightarrow> state \<Rightarrow> state outcome" where
  "unstake_body e amount s =
     (if paused s then Reverted EnforcedPause s
      else if amount = 0 then Reverted InvalidAmount s
      else if staked (accounts s (sender e)) < amount then
        Reverted (InsufficientBalance (staked (accounts s (sender e))) amount) s
      else
        (case updateRewards e (sender e) s of
           Reverted err s1 \<Rightarrow> Reverted err s1
         | Done s1 \<Rightarrow>
             let acct = accounts s1 (sender e)
             in (case checked_sub (staked acct) amount of
                   None \<Rightarrow> Reverted Panic s1
                 | Some st \<Rightarrow>
                     let acct1 = acct\<lparr>staked := st\<rparr>;
                         s2 = storeAccount (sender e) acct1 s1
                     in (case checked_sub (totalStaked s2) amount of
                           None \<Rightarrow> Reverted Panic s2
                         | Some ts \<Rightarrow>
                             let acct2 = (if staked acct1 = 0 then acct1\<lparr>stakeStart := 0\<rparr>
                                          else acct1)
                             in Done (emit (Unstaked (sender e) amount)
                                        (storeAccount (sender e) acct2
                                           (s2\<lparr>totalStaked := ts\<rparr>)))))))"

definition unstake :: "env \<Rightarrow> nat \<Rightarrow> state \<Rightarrow> error option \<times> state" where
  "unstake e amount s = transact s (unstake_body e amount s)"

text \<open>
  \<^verbatim>\<open>withdraw(uint256 amountPrincipal, bool claimRewards)\<close>: no \<^verbatim>\<open>whenNotPaused\<close>.
  The writes to \<open>rewardsAccrued\<close> and \<open>deposited\<close> come before the transfer.
\<close>

definition withdraw_uint256_bool_body ::
  "env \<Rightarrow> nat \<Rightarrow> bool \<Rightarrow> state \<Rightarrow> state outcome" where
  "withdraw_uint256_bool_body e amountPrincipal claimRewards s =
     (case checked_sub (deposited (accounts s (sender e))) (staked (accounts s (sender e))) of
        None \<Rightarrow> Reverted Panic s
      | Some idle \<Rightarrow>
          if idle < amountPrincipal then Reverted (InsufficientBalance idle amountPrincipal) s
          else
            (case updateRewards e (sender e) s of
               Reverted err s1 \<Rightarrow> Reverted err s1
             | Done s1 \<Rightarrow>
                 let acct = accounts s1 (sender e);
                     rewardsOut = (if claimRewards then rewardsAccrued acct else 0);
                     acct1 = (if claimRewards then acct\<lparr>rewardsAccrued := 0\<rparr> else acct);
                     s2 = storeAccount (sender e) acct1 s1
                 in (case (if 0 < amountPrincipal
                           then checked_sub (deposited acct1) amountPrincipal
                           else Some (deposited acct1)) of
                       None \<Rightarrow> Reverted Panic s2
                     | Some d \<Rightarrow>
                         let s3 = storeAccount (sender e) (acct1\<lparr>deposited := d\<rparr>) s2
                         in (case checked_add amountPrincipal rewardsOut of
                               None \<Rightarrow> Reverted Panic s3
                             | Some payout \<Rightarrow>
                                 if \<not> custodyOk e then Reverted CustodyTransferFailed s3
                                 else
                                   Done (emit (Withdrawn (sender e) amountPrincipal rewardsOut)
                                           (perform
                                              (SafeTransfer (STAKING_TOKEN s3) (sender e) payout)
                                              s3))))))"

definition withdraw_uint256_bool ::
  "env \<Rightarrow> nat \<Rightarrow> bool \<Rightarrow> state \<Rightarrow> error option \<times> state" where
  "withdraw_uint256_bool e amountPrincipal claimRewards s =
     transact s (withdraw_uint256_bool_body e amountPrincipal claimRewards s)"

text \<open>
  \<^verbatim>\<open>withdraw(uint256 amount)\<close>, the annual-rate path: no \<^verbatim>\<open>whenNotPaused\<close> and no
  call of \<^verbatim>\<open>_updateRewards\<close>.  The three checks are in the order of the source.
\<close>

definition withdraw_uint256_body :: "env \<Rightarrow> nat \<Rightarrow> state \<Rightarrow> state outcome" where
  "withdraw_uint256_body e amount s =
     (let acct = accounts s (sender e) in
      if amount = 0 then Reverted InvalidAmount s
      else if staked acct < amount then Reverted (InsufficientBalance (staked acct) amount) s
      else if staked acct = 0 then Reverted NothingStaked s
      else
        let acct1 = (if stakeStart acct = 0 then acct\<lparr>stakeStart := timestamp e\<rparr> else acct);
            start = (if stakeStart acct = 0 then timestamp e else stakeStart acct);
            s1 = storeAccount (sender e) acct1 s
        in (case checked_sub (timestamp e) start of
              None \<Rightarrow> Reverted Panic s1
            | Some duration \<Rightarrow>
           (case checked_mul amount ANNUAL_RATE_BPS of
              None \<Rightarrow> Reverted Panic s1
            | Some scaled \<Rightarrow>
           (case checked_mul scaled duration of
              None \<Rightarrow> Reverted Panic s1
            | Some numerator \<Rightarrow>
                let rewards = numerator div (SECONDS_PER_YEAR * 10000)
                in (case checked_sub (staked acct1) amount of
                      None \<Rightarrow> Reverted Panic s1
                    | Some st \<Rightarrow>
                        let acct2 = acct1\<lparr>staked := st\<rparr>;
                            s2 = storeAccount (sender e) acct2 s1
                        in (case checked_sub (totalStaked s2) amount of
                              None \<Rightarrow> Reverted Panic s2
                            | Some ts \<Rightarrow>
                                let s3 = s2\<lparr>totalStaked := ts\<rparr>
                                in (case checked_sub (deposited acct2) amount of
                                      None \<Rightarrow> Reverted Panic s3
                                    | Some d \<Rightarrow>
                                        let acct3 = acct2\<lparr>deposited := d\<rparr>;
                                            acct4 = (if 0 < staked acct3
                                                     then acct3\<lparr>stakeStart := timestamp e\<rparr>
                                                     else acct3\<lparr>stakeStart := 0\<rparr>);
                                            s4 = storeAccount (sender e) acct4 s3
                                        in (case checked_add amount rewards of
                                              None \<Rightarrow> Reverted Panic s4
                                            | Some payout \<Rightarrow>
                                                if \<not> custodyOk e
                                                then Reverted CustodyTransferFailed s4
                                                else
                                                  Done (emit (Withdraw (sender e) amount rewards)
                                                          (perform
                                                             (SafeTransfer (STAKING_TOKEN s4)
                                                                (sender e) payout)
                                                             s4))))))))))"

definition withdraw_uint256 :: "env \<Rightarrow> nat \<Rightarrow> state \<Rightarrow> error option \<times> state" where
  "withdraw_uint256 e amount s = transact s (withdraw_uint256_body e amount s)"

text \<open>The three functions behind \<^verbatim>\<open>onlyRole(ADMIN_ROLE)\<close>.\<close>

definition setRewardRate_body :: "env \<Rightarrow> nat \<Rightarrow> state \<Rightarrow> state outcome" where
  "setRewardRate_body e newRate s =
     (if \<not> adminRole s (sender e) then
        Reverted (AccessControlUnauthorizedAccount (sender e)) s
      else Done (emit (RewardRateUpdated (rewardRate s) newRate) (s\<lparr>rewardRate := newRate\<rparr>)))"

definition setRewardRate :: "env \<Rightarrow> nat \<Rightarrow> state \<Rightarrow> error option \<times> state" where
  "setRewardRate e newRate s = transact s (setRewardRate_body e newRate s)"

definition pause_body :: "env \<Rightarrow> state \<Rightarrow> state outcome" where
  "pause_body e s =
     (if \<not> adminRole s (sender e) then
        Reverted (AccessControlUnauthorizedAccount (sender e)) s
      else if paused s then Reverted EnforcedPause s
      else Done (emit (Paused (sender e)) (s\<lparr>paused := True\<rparr>)))"

definition pause :: "env \<Rightarrow> state \<Rightarrow> error option \<times> state" where
  "pause e s = transact s (pause_body e s)"

definition unpause_body :: "env \<Rightarrow> state \<Rightarrow> state outcome" where
  "unpause_body e s =
     (if \<not> adminRole s (sender e) then
        Reverted (AccessControlUnauthorizedAccount (sender e)) s
      else if \<not> paused s then Reverted ExpectedPause s
      else Done (emit (Unpaused (sender e)) (s\<lparr>paused := False\<rparr>)))"

definition unpause :: "env \<Rightarrow> state \<Rightarrow> error option \<times> state" where
  "unpause e s = transact s (unpause_body e s)"

text \<open>The state-changing external functions as one datatype, and their dispatch.\<close>

datatype call =
    CallDeposit nat
  | CallDepositToken address nat
  | CallStake nat
  | CallUnstake nat
  | CallWithdrawPrincipal nat bool
  | CallWithdrawAnnual nat
  | CallSetRewardRate nat
  | CallPause
  | CallUnpause

fun exec :: "env \<Rightarrow> call \<Rightarrow> state \<Rightarrow> error option \<times> state" where
  "exec e (CallDeposit amount) s = deposit_uint256 e amount s"
| "exec e (CallDepositToken token amount) s = deposit_address_uint256 e token amount s"
| "exec e (CallStake amount) s = stake e amount s"
| "exec e (CallUnstake amount) s = unstake e amount s"
| "exec e (CallWithdrawPrincipal amount claimRewards) s =
     withdraw_uint256_bool e amount claimRewards s"
| "exec e (CallWithdrawAnnual amount) s = withdraw_uint256 e amount s"
| "exec e (CallSetRewardRate newRate) s = setRewardRate e newRate s"
| "exec e CallPause s = pause e s"
| "exec e CallUnpause s = unpause e s"

text \<open>
  The states the contract can be in: the one the constructor leaves, and every state a
  call leaves.  The role functions the contract inherits from \<^verbatim>\<open>AccessControl\<close>
  write only the role table, which the third rule lets change freely.
\<close>

inductive reachable :: "state \<Rightarrow> bool" where
  reachable_constructor:
    "constructor stakingToken initialRate admin = Inr s \<Longrightarrow> reachable s"
| reachable_exec:
    "reachable s \<Longrightarrow> reachable (snd (exec e c s))"
| reachable_roles:
    "reachable s \<Longrightarrow> reachable (s\<lparr>adminRole := r\<rparr>)"
section \<open>Example states\<close>

text \<open>
  Four ledgers the contract reaches, and the transaction of a caller at a time.
  \<open>fresh_state\<close> is what the constructor leaves, with the token \<open>1\<close>, the admin \<open>9\<close>
  and a rate of 0.3 per second and unit; in \<open>example_state\<close> account \<open>7\<close> has then
  deposited 10 and staked 7 at time 100; \<open>overflow_state\<close> is deployed with the rate
  \<open>2 ^ 255\<close> instead, and account \<open>7\<close> has deposited 10 and staked 2 at time 100;
  \<open>split_overflow_state\<close> is the same with 1 staked.
\<close>

definition example_state :: state where
  "example_state =
     \<lparr>STAKING_TOKEN = 1, rewardRate = 300000000000000000,
      accounts = (\<lambda>_. zeroAccount)
        (7 := \<lparr>deposited = 10, staked = 7, rewardsAccrued = 0, lastUpdate = 100,
                stakeStart = 100, rewardRemainder = 0\<rparr>),
      totalStaked = 7, paused = False, adminRole = (\<lambda>a. a = 9),
      effects = [SafeTransferFrom 1 7 10, Emit (Deposited 7 10), Emit (Staked 7 7),
                 Emit (Stake 7 7)]\<rparr>"

definition at_time :: "address \<Rightarrow> nat \<Rightarrow> env" where
  "at_time u t = \<lparr>sender = u, timestamp = t, custodyOk = True\<rparr>"

definition fresh_state :: state where
  "fresh_state =
     \<lparr>STAKING_TOKEN = 1, rewardRate = 300000000000000000,
      accounts = (\<lambda>_. zeroAccount), totalStaked = 0, paused = False,
      adminRole = (\<lambda>a. a = 9), effects = []\<rparr>"

definition overflow_state :: state where
  "overflow_state =
     \<lparr>STAKING_TOKEN = 1,
      rewardRate = 57896044618658097711785492504343953926634992332820282019728792003956564819968,
      accounts = (\<lambda>_. zeroAccount)
        (7 := \<lparr>deposited = 10, staked = 2, rewardsAccrued = 0, lastUpdate = 100,
                stakeStart = 100, rewardRemainder = 0\<rparr>),
      totalStaked = 2, paused = False, adminRole = (\<lambda>a. a = 9),
      effects = [SafeTransferFrom 1 7 10, Emit (Deposited 7 10), Emit (Staked 7 2),
                 Emit (Stake 7 2)]\<rparr>"

definition split_overflow_state :: state where
  "split_overflow_state =
     \<lparr>STAKING_TOKEN = 1,
      rewardRate = 57896044618658097711785492504343953926634992332820282019728792003956564819968,
      accounts = (\<lambda>_. zeroAccount)
        (7 := \<lparr>deposited = 10, staked = 1, rewardsAccrued = 0, lastUpdate = 100,
                stakeStart = 100, rewardRemainder = 0\<rparr>),
      totalStaked = 1, paused = False, adminRole = (\<lambda>a. a = 9),
      effects = [SafeTransferFrom 1 7 10, Emit (Deposited 7 10), Emit (Staked 7 1),
                 Emit (Stake 7 1)]\<rparr>"

section \<open>The frame of a call\<close>

text \<open>
  What one call by \<open>u\<close> may change between the storage \<open>s\<close> before and \<open>s'\<close> after:
  no account but the caller's; the caller's remainder only to a value below \<open>SCALE\<close>;
  and \<open>totalStaked\<close> only by as much as the caller's \<open>staked\<close>.  It is the induction
  step of the two ledger invariants.
\<close>

definition step_ok :: "address \<Rightarrow> state \<Rightarrow> state \<Rightarrow> bool" where
  "step_ok u s s' \<longleftrightarrow>
     (\<forall>v. v \<noteq> u \<longrightarrow> accounts s' v = accounts s v) \<and>
     (rewardRemainder (accounts s' u) = rewardRemainder (accounts s u) \<or>
      rewardRemainder (accounts s' u) < SCALE) \<and>
     totalStaked s' + staked (accounts s u) = totalStaked s + staked (accounts s' u)"

text \<open>A sequence of calls, each in its own transaction, reverted or not.\<close>

fun execAll :: "(env \<times> call) list \<Rightarrow> state \<Rightarrow> state" where
  "execAll [] s = s"
| "execAll ((e, c) # cs) s = execAll cs (snd (exec e c s))"



section \<open>Accrual: closed form of a commit\<close>

text \<open>
  A commit that finds nothing to accrue (an untouched account, nothing staked, or no
  time elapsed) only moves \<open>lastUpdate\<close>.  Otherwise it succeeds exactly when the scaled
  total and the new balance fit in 256 bits, and then carries the remainder.
\<close>


lemma updateRewards_idle:
  "lastUpdate (accounts s u) = 0 \<or> staked (accounts s u) = 0 \<or> lastUpdate (accounts s u) = timestamp e \<Longrightarrow>
   updateRewards e u s = Done (storeAccount u ((accounts s u)\<lparr>lastUpdate := timestamp e\<rparr>) s)"
  by (auto simp: updateRewards_def checked_sub_def Let_def)

lemma updateRewards_accrue:
  assumes L: "lastUpdate (accounts s u) \<noteq> 0" and S: "0 < staked (accounts s u)"
    and lt: "lastUpdate (accounts s u) < timestamp e"
    and x: "x = staked (accounts s u) * rewardRate s * (timestamp e - lastUpdate (accounts s u))
           + rewardRemainder (accounts s u)"
  shows "updateRewards e u s = Done s' \<longleftrightarrow>
     x < UINT256_RANGE \<and> (0 < x div SCALE \<longrightarrow> rewardsAccrued (accounts s u) + x div SCALE < UINT256_RANGE) \<and>
     s' = storeAccount u ((accounts s u)\<lparr>rewardRemainder := x mod SCALE,
             rewardsAccrued := rewardsAccrued (accounts s u) + x div SCALE, lastUpdate := timestamp e\<rparr>)
            (if 0 < x div SCALE then emit (RewardsAccrued u (x div SCALE)) s else s)"
proof (cases "x < UINT256_RANGE")
  case True
  let ?a = "accounts s u"
  let ?d = "timestamp e - lastUpdate ?a"
  have d: "0 < ?d" using lt by simp
  have le1: "staked ?a * rewardRate s \<le> staked ?a * rewardRate s * ?d"
    using d by (cases "timestamp e - lastUpdate (accounts s u)") simp_all
  have le2: "staked ?a * rewardRate s * ?d \<le> x" using x by simp
  have sub: "checked_sub (timestamp e) (lastUpdate ?a) = Some ?d"
    using lt by (simp add: checked_sub_def)
  have m1: "checked_mul (staked ?a) (rewardRate s) = Some (staked ?a * rewardRate s)"
  proof -
    have "staked ?a * rewardRate s < UINT256_RANGE"
      using le1 le2 True by (rule_tac le_less_trans [OF le_trans])
    then show ?thesis by (simp add: checked_mul_def)
  qed
  have m2: "checked_mul (staked ?a * rewardRate s) ?d = Some (staked ?a * rewardRate s * ?d)"
  proof -
    have "staked ?a * rewardRate s * ?d < UINT256_RANGE"
      using le2 True by (rule le_less_trans)
    then show ?thesis by (simp add: checked_mul_def)
  qed
  have m3: "checked_add (staked ?a * rewardRate s * ?d) (rewardRemainder ?a) = Some x"
    using True x by (simp add: checked_add_def)
  show ?thesis
    using L S d True unfolding x
    by (auto simp: updateRewards_def sub m1 m2 m3 [unfolded x] Let_def checked_add_def
          storeAccount_def emit_def perform_def)
next
  case False
  then show ?thesis
    using L S lt unfolding x
    by (auto simp: updateRewards_def checked_sub_def checked_mul_def checked_add_def Let_def
          split: if_splits)
qed


lemma updateRewards_timestamp:
  "timestamp e = timestamp e' \<Longrightarrow> updateRewards e u s = updateRewards e' u s"
  unfolding updateRewards_def by (simp only:)

lemma carry_div:
  fixes y w k :: nat
  shows "y div k + (y mod k + w) div k = (y + w) div k"
proof (cases "k = 0")
  case True then show ?thesis by simp
next
  case False
  have "y + w = (y mod k + w) + k * (y div k)" by simp
  then have "(y + w) div k = ((y mod k + w) + k * (y div k)) div k" by (rule arg_cong)
  also have "\<dots> = y div k + (y mod k + w) div k" using False by (rule div_mult_self2)
  finally show ?thesis by simp
qed

lemma carry_mod:
  fixes y w k :: nat
  shows "(y mod k + w) mod k = (y + w) mod k"
  by (simp add: mod_add_left_eq)

lemma updateRewards_split:
  assumes once: "updateRewards ec u s = Done s_once"
    and ok: "staked (accounts s u) = 0 \<or> lastUpdate (accounts s u) \<noteq> 0"
    and t1: "lastUpdate (accounts s u) \<le> timestamp et"
    and t2: "timestamp et \<le> timestamp ec"
  shows "\<exists>s1 s2. updateRewards et u s = Done s1 \<and> updateRewards ec u s1 = Done s2 \<and>
           s2\<lparr>effects := effects s_once\<rparr> = s_once \<and>
           lastUpdate (accounts s1 u) = timestamp et \<and>
           staked (accounts s1 u) = staked (accounts s u)"
proof -
  let ?a = "accounts s u"
  let ?L = "lastUpdate ?a"
  let ?t = "timestamp et"
  let ?c = "timestamp ec"
  let ?SR = "staked ?a * rewardRate s"
  consider (idle) "staked ?a = 0" | (same) "0 < staked ?a" "?L \<noteq> 0" "?c = ?L"
    | (first0) "0 < staked ?a" "?L \<noteq> 0" "?L < ?c" "?t = ?L"
    | (last0) "0 < staked ?a" "?L \<noteq> 0" "?L < ?t" "?t = ?c"
    | (both) "0 < staked ?a" "?L \<noteq> 0" "?L < ?t" "?t < ?c"
    using ok t1 t2 by fastforce
  then show ?thesis
  proof cases
    case idle
    have a: "updateRewards et u s = Done (storeAccount u (?a\<lparr>lastUpdate := ?t\<rparr>) s)"
      using idle by (simp add: updateRewards_idle)
    have b: "s_once = storeAccount u (?a\<lparr>lastUpdate := ?c\<rparr>) s"
      using idle once by (simp add: updateRewards_idle)
    have c: "updateRewards ec u (storeAccount u (?a\<lparr>lastUpdate := ?t\<rparr>) s)
        = Done (storeAccount u (?a\<lparr>lastUpdate := ?c\<rparr>) s)"
      using idle by (subst updateRewards_idle) (simp_all add: storeAccount_def)
    show ?thesis using a b c by (simp add: storeAccount_def)
  next
    case same
    then have tL: "?t = ?L" using t1 t2 by simp
    have a: "updateRewards et u s = Done s"
      using tL by (simp add: updateRewards_idle storeAccount_def)
    show ?thesis using a once tL by simp
  next
    case first0
    have a: "updateRewards et u s = Done s"
      using first0 by (simp add: updateRewards_idle storeAccount_def)
    show ?thesis using a once first0 by simp
  next
    case last0
    define x where "x = ?SR * (?c - ?L) + rewardRemainder ?a"
    have lt: "?L < ?c" using last0 by simp
    note once_iff = updateRewards_accrue [OF last0(2) last0(1) lt x_def]
    let ?s1 = "storeAccount u (?a\<lparr>rewardRemainder := x mod SCALE,
             rewardsAccrued := rewardsAccrued ?a + x div SCALE, lastUpdate := ?c\<rparr>)
            (if 0 < x div SCALE then emit (RewardsAccrued u (x div SCALE)) s else s)"
    have so: "s_once = ?s1" using once once_iff by simp
    have a: "updateRewards et u s = Done s_once"
      using once updateRewards_timestamp [OF last0(4), of u s] by simp
    have b: "updateRewards ec u s_once = Done s_once"
      unfolding so by (subst updateRewards_idle) (auto simp: storeAccount_def emit_def perform_def)
    show ?thesis using a b last0 so by (auto simp: storeAccount_def emit_def perform_def)
  next
    case both
    define x where "x = ?SR * (?c - ?L) + rewardRemainder ?a"
    define y where "y = ?SR * (?t - ?L) + rewardRemainder ?a"
    define w where "w = ?SR * (?c - ?t)"
    have lt: "?L < ?c" using both by simp
    have xy: "x = y + w"
    proof -
      have "?c - ?L = (?t - ?L) + (?c - ?t)" using both by simp
      then have "?SR * (?c - ?L) = ?SR * (?t - ?L) + ?SR * (?c - ?t)"
        by (simp add: distrib_left [symmetric])
      then show ?thesis by (simp add: x_def y_def w_def)
    qed
    note once_iff = updateRewards_accrue [OF both(2) both(1) lt x_def]
    have xr: "x < UINT256_RANGE"
      and xa: "0 < x div SCALE \<longrightarrow> rewardsAccrued ?a + x div SCALE < UINT256_RANGE"
      and so: "s_once = storeAccount u (?a\<lparr>rewardRemainder := x mod SCALE,
             rewardsAccrued := rewardsAccrued ?a + x div SCALE, lastUpdate := ?c\<rparr>)
            (if 0 < x div SCALE then emit (RewardsAccrued u (x div SCALE)) s else s)"
      using once once_iff by simp_all
    have dv: "y div SCALE + (y mod SCALE + w) div SCALE = x div SCALE"
      unfolding xy by (rule carry_div)
    have md: "(y mod SCALE + w) mod SCALE = x mod SCALE"
      unfolding xy by (rule carry_mod)
    have yr: "y < UINT256_RANGE" using xr xy by simp
    have ya: "0 < y div SCALE \<longrightarrow> rewardsAccrued ?a + y div SCALE < UINT256_RANGE"
      using xa dv by auto
    define s1 where "s1 = storeAccount u (?a\<lparr>rewardRemainder := y mod SCALE,
             rewardsAccrued := rewardsAccrued ?a + y div SCALE, lastUpdate := ?t\<rparr>)
            (if 0 < y div SCALE then emit (RewardsAccrued u (y div SCALE)) s else s)"
    have a: "updateRewards et u s = Done s1"
      using updateRewards_accrue [OF both(2) both(1) both(3) y_def] yr ya s1_def by simp
    have s1L: "lastUpdate (accounts s1 u) \<noteq> 0" "0 < staked (accounts s1 u)"
      "lastUpdate (accounts s1 u) < ?c"
      using both by (simp_all add: s1_def storeAccount_def emit_def perform_def)
    have z: "y mod SCALE + w = staked (accounts s1 u) * rewardRate s1 *
        (?c - lastUpdate (accounts s1 u)) + rewardRemainder (accounts s1 u)"
      by (simp add: s1_def storeAccount_def emit_def perform_def w_def)
    have zr: "y mod SCALE + w < UINT256_RANGE"
    proof -
      have "y mod SCALE + w \<le> y + w" by simp
      moreover have "y + w < UINT256_RANGE" using xr xy by simp
      ultimately show ?thesis by (rule le_less_trans)
    qed
    have za: "0 < (y mod SCALE + w) div SCALE \<longrightarrow>
        rewardsAccrued (accounts s1 u) + (y mod SCALE + w) div SCALE < UINT256_RANGE"
      using xa dv by (auto simp: s1_def storeAccount_def emit_def perform_def)
    define s2 where "s2 = storeAccount u ((accounts s1 u)\<lparr>rewardRemainder := (y mod SCALE + w) mod SCALE,
             rewardsAccrued := rewardsAccrued (accounts s1 u) + (y mod SCALE + w) div SCALE,
             lastUpdate := ?c\<rparr>)
            (if 0 < (y mod SCALE + w) div SCALE
             then emit (RewardsAccrued u ((y mod SCALE + w) div SCALE)) s1 else s1)"
    have b: "updateRewards ec u s1 = Done s2"
      using updateRewards_accrue [OF s1L z] zr za s2_def by simp
    have acc: "rewardsAccrued ?a + y div SCALE + (y mod SCALE + w) div SCALE
        = rewardsAccrued ?a + x div SCALE"
      using dv by simp
    have c: "s2\<lparr>effects := effects s_once\<rparr> = s_once"
      unfolding s2_def so s1_def
      by (simp add: storeAccount_def emit_def perform_def md acc)
    have d: "lastUpdate (accounts s1 u) = ?t" "staked (accounts s1 u) = staked ?a"
      by (simp_all add: s1_def storeAccount_def emit_def perform_def)
    show ?thesis using a b c d by blast
  qed
qed

section \<open>C1: splitting invariance of the accrual\<close>

text \<open>
  Claim C1, as amended.  Take an account whose last checkpoint is \<open>a = lastUpdate\<close>
  (an account that has a checkpoint, as every account with a stake has by
  \<open>staked_accounts_are_touched\<close> below, or one with nothing staked), and any
  checkpoints \<open>a \<le> t1 \<le> \<dots> \<le> tn \<le> c\<close>.  If the one commit at \<open>c\<close> goes through,
  that is if its checked arithmetic stays within 256 bits, then so does the sequence of
  commits at \<open>t1, \<dots>, tn, c\<close>, and it ends with the same \<open>rewardsAccrued\<close> and the
  same \<open>rewardRemainder\<close>; in fact with the same storage, only the trace of emitted
  events differs.  Neither \<open>staked\<close> nor \<open>rewardRate\<close> is written by a commit, so
  both are constant over the interval.
\<close>

theorem splitting_invariance:
  assumes once: "updateRewards ec user s = Done s_once"
    and touched: "staked (accounts s user) = 0 \<or> lastUpdate (accounts s user) \<noteq> 0"
    and ordered: "sorted (lastUpdate (accounts s user) # map timestamp (es @ [ec]))"
  shows "\<exists>s_split. commitEach (es @ [ec]) user s = Done s_split \<and>
           rewardsAccrued (accounts s_split user) = rewardsAccrued (accounts s_once user) \<and>
           rewardRemainder (accounts s_split user) = rewardRemainder (accounts s_once user) \<and>
           s_split\<lparr>effects := effects s_once\<rparr> = s_once"
proof -
  have "\<exists>s_split. commitEach (es @ [ec]) user s = Done s_split \<and>
           s_split\<lparr>effects := effects s_once\<rparr> = s_once"
    using once touched ordered
  proof (induction es arbitrary: s s_once)
    case Nil
    then show ?case by simp
  next
    case (Cons e es)
    have t1: "lastUpdate (accounts s user) \<le> timestamp e"
      and t2: "timestamp e \<le> timestamp ec"
      and rest: "sorted (timestamp e # map timestamp (es @ [ec]))"
      using Cons.prems(3) by simp_all
    from updateRewards_split [OF Cons.prems(1) Cons.prems(2) t1 t2]
    obtain s1 s2 where a: "updateRewards e user s = Done s1"
      and b: "updateRewards ec user s1 = Done s2"
      and c: "s2\<lparr>effects := effects s_once\<rparr> = s_once"
      and d: "lastUpdate (accounts s1 user) = timestamp e"
      and f: "staked (accounts s1 user) = staked (accounts s user)"
      by blast
    have touched1: "staked (accounts s1 user) = 0 \<or> lastUpdate (accounts s1 user) \<noteq> 0"
      using Cons.prems(2) d f t1 by auto
    have rest1: "sorted (lastUpdate (accounts s1 user) # map timestamp (es @ [ec]))"
      using rest d by simp
    from Cons.IH [OF b touched1 rest1]
    obtain s_split where g: "commitEach (es @ [ec]) user s1 = Done s_split"
      and h: "s_split\<lparr>effects := effects s2\<rparr> = s2"
      by blast
    have "s_split\<lparr>effects := effects s_once\<rparr> = s2\<lparr>effects := effects s_once\<rparr>"
      by (subst h [symmetric]) simp
    then have "s_split\<lparr>effects := effects s_once\<rparr> = s_once" using c by simp
    then show ?case using a g by simp
  qed
  then obtain s_split where g: "commitEach (es @ [ec]) user s = Done s_split"
    and h: "s_split\<lparr>effects := effects s_once\<rparr> = s_once"
    by blast
  have "accounts (s_split\<lparr>effects := effects s_once\<rparr>) = accounts s_once"
    by (simp only: h)
  then have "accounts s_split = accounts s_once" by simp
  then show ?thesis using g h by auto
qed

theorem splitting_invariance_witness:
  "\<exists>s_split. commitEach ([at_time 7 103, at_time 7 110] @ [at_time 7 121]) 7 example_state
       = Done s_split \<and>
     rewardsAccrued (accounts s_split 7) = 44 \<and>
     rewardRemainder (accounts s_split 7) = 100000000000000000"
proof -
  let ?once = "storeAccount 7
      \<lparr>deposited = 10, staked = 7, rewardsAccrued = 44, lastUpdate = 121,
       stakeStart = 100, rewardRemainder = 100000000000000000\<rparr>
      (emit (RewardsAccrued 7 44) example_state)"
  have once: "updateRewards (at_time 7 121) 7 example_state = Done ?once"
    by (simp add: updateRewards_def example_state_def at_time_def checked_sub_def
        checked_mul_def checked_add_def UINT256_RANGE_def SCALE_def Let_def storeAccount_def
        emit_def perform_def)
  have touched: "staked (accounts example_state 7) = 0 \<or> lastUpdate (accounts example_state 7) \<noteq> 0"
    by (simp add: example_state_def)
  have ordered: "sorted (lastUpdate (accounts example_state 7) #
      map timestamp ([at_time 7 103, at_time 7 110] @ [at_time 7 121]))"
    by (simp add: example_state_def at_time_def)
  from splitting_invariance [OF once touched ordered]
  show ?thesis by (auto simp: storeAccount_def)
qed

text \<open>
  Against claim C1 as stated, for every rate and every partition: in
  \<open>split_overflow_state\<close> the rate is \<open>2 ^ 255\<close> and account \<open>7\<close> has staked 1 since
  its checkpoint at time 100.  The one commit at time 102 multiplies \<open>1 * 2 ^ 255\<close> by
  the two seconds elapsed, the product leaves 256 bits, and the commit reverts, leaving
  \<open>rewardsAccrued = 0\<close>.  The commits at 101 and 102 each multiply by one second, go
  through, and together credit \<open>2 ^ 256 div 10 ^ 18\<close>.
\<close>

theorem splitting_overflow_counterexample:
  "lastUpdate (accounts split_overflow_state 7) = 100 \<and>
   updateRewards (at_time 7 102) 7 split_overflow_state = Reverted Panic split_overflow_state \<and>
   (\<exists>s. commitEach [at_time 7 101, at_time 7 102] 7 split_overflow_state = Done s \<and>
      rewardsAccrued (accounts s 7)
        = 115792089237316195423570985008687907853269984665640564039457 \<and>
      rewardRemainder (accounts s 7) = 584007913129639936) \<and>
   rewardsAccrued (accounts split_overflow_state 7) = 0"
  by (simp add: updateRewards_def split_overflow_state_def at_time_def checked_sub_def
      checked_mul_def checked_add_def UINT256_RANGE_def SCALE_def Let_def storeAccount_def
      emit_def perform_def)
section \<open>Frame of a commit\<close>

text \<open>
  The first example ledger is the one the constructor leaves.  A commit that goes through
  writes only \<open>rewardsAccrued\<close>, \<open>rewardRemainder\<close> and \<open>lastUpdate\<close> of the one
  account, and the remainder it leaves is either the old one or below \<open>SCALE\<close>.
\<close>

lemma fresh_state_constructor: "constructor 1 300000000000000000 9 = Inr fresh_state"
  by (simp add: constructor_def fresh_state_def)

lemma updateRewards_frame:
  assumes "updateRewards e u s = Done s1"
  shows "STAKING_TOKEN s1 = STAKING_TOKEN s" and "rewardRate s1 = rewardRate s"
    and "totalStaked s1 = totalStaked s" and "paused s1 = paused s"
    and "adminRole s1 = adminRole s"
    and "accounts s1 = (accounts s)(u := accounts s1 u)"
    and "deposited (accounts s1 u) = deposited (accounts s u)"
    and "staked (accounts s1 u) = staked (accounts s u)"
    and "stakeStart (accounts s1 u) = stakeStart (accounts s u)"
    and "lastUpdate (accounts s1 u) = timestamp e"
  using assms
  by (auto simp: updateRewards_def Let_def storeAccount_def emit_def perform_def
      split: if_splits option.splits)

lemma updateRewards_remainder:
  assumes "updateRewards e u s = Done s1"
  shows "rewardRemainder (accounts s1 u) = rewardRemainder (accounts s u) \<or>
         rewardRemainder (accounts s1 u) < SCALE"
  using assms
  by (auto simp: updateRewards_def Let_def storeAccount_def emit_def perform_def SCALE_def
      split: if_splits option.splits)

section \<open>C2: atomicity on error\<close>

text \<open>
  Claim C2.  Whatever the call (\<open>deposit(uint256)\<close>, \<open>deposit(address,uint256)\<close>,
  \<open>stake\<close>, \<open>unstake\<close>, both \<open>withdraw\<close> overloads, \<open>setRewardRate\<close>, \<open>pause\<close>,
  \<open>unpause\<close>) and whatever the state it starts in: when the call returns an error,
  a failed token transfer included, the storage after the call is the storage before
  it, so every account field, \<open>totalStaked\<close>, \<open>rewardRate\<close> and \<open>paused\<close> are what
  they were.  The bodies do write before they fail (the lemma after the theorem shows
  \<open>withdraw(uint256,bool)\<close> stopping at the transfer with \<open>deposited\<close> already
  reduced); it is the transaction boundary that discards those writes.
\<close>

theorem atomicity_on_error:
  assumes "exec e c s = (Some err, s')"
  shows "s' = s"
  using assms
  by (cases c)
    (auto simp: transact_def deposit_uint256_def deposit_address_uint256_def stake_def
      unstake_def withdraw_uint256_bool_def withdraw_uint256_def setRewardRate_def pause_def
      unpause_def split: outcome.splits)

lemma withdraw_body_partial_write:
  "withdraw_uint256_bool_body (at_time 7 121\<lparr>custodyOk := False\<rparr>) 2 True example_state
     = Reverted CustodyTransferFailed
        (storeAccount 7
          \<lparr>deposited = 8, staked = 7, rewardsAccrued = 0, lastUpdate = 121,
            stakeStart = 100, rewardRemainder = 100000000000000000\<rparr>
          (emit (RewardsAccrued 7 44) example_state))"
  by (simp add: withdraw_uint256_bool_body_def updateRewards_def example_state_def at_time_def
      checked_sub_def checked_mul_def checked_add_def UINT256_RANGE_def SCALE_def Let_def
      storeAccount_def emit_def perform_def)

theorem atomicity_on_error_witness:
  "fst (exec (at_time 7 121\<lparr>custodyOk := False\<rparr>) (CallWithdrawPrincipal 2 True) example_state)
     = Some CustodyTransferFailed \<and>
   snd (exec (at_time 7 121\<lparr>custodyOk := False\<rparr>) (CallWithdrawPrincipal 2 True) example_state)
     = example_state"
proof -
  let ?r = "exec (at_time 7 121\<lparr>custodyOk := False\<rparr>) (CallWithdrawPrincipal 2 True) example_state"
  have a: "fst ?r = Some CustodyTransferFailed"
    by (simp add: withdraw_uint256_bool_def withdraw_body_partial_write transact_def)
  then have "?r = (Some CustodyTransferFailed, snd ?r)"
    by (metis prod.collapse)
  from atomicity_on_error [OF this] a show ?thesis by simp
qed
section \<open>C5: the errors of the annual-rate withdrawal\<close>

text \<open>
  The first and the third clause of claim C5 hold on the code: a zero amount is
  \<open>InvalidAmount\<close>, and an amount above \<open>staked\<close> is \<open>InsufficientBalance\<close> (the
  contract's name for the spec's \<open>InsufficientStaked\<close>).  The second does not: the
  check \<^verbatim>\<open>acct.staked < amount\<close> comes before \<^verbatim>\<open>acct.staked == 0\<close>, and with a
  nonzero amount an account with nothing staked already fails the former, so
  \<open>NothingStaked\<close> is never returned.
\<close>

lemma withdraw_uint256_zero_amount:
  "withdraw_uint256 e 0 s = (Some InvalidAmount, s)"
  by (simp add: withdraw_uint256_def withdraw_uint256_body_def transact_def)

lemma withdraw_uint256_insufficient:
  "amount \<noteq> 0 \<Longrightarrow> staked (accounts s (sender e)) < amount \<Longrightarrow>
   withdraw_uint256 e amount s
     = (Some (InsufficientBalance (staked (accounts s (sender e))) amount), s)"
  by (simp add: withdraw_uint256_def withdraw_uint256_body_def transact_def)

lemma withdraw_uint256_never_NothingStaked:
  "fst (withdraw_uint256 e amount s) \<noteq> Some NothingStaked"
  by (auto simp: withdraw_uint256_def withdraw_uint256_body_def transact_def Let_def
      split: option.splits)

text \<open>
  Claim C5, at an account with nothing staked and the amount 1: the claim says
  \<open>NothingStaked\<close>, the code answers \<open>InsufficientBalance(0, 1)\<close>.
\<close>

theorem withdrawAnnual_nothing_staked_eval:
  "withdraw_uint256 (at_time 7 200) 1 fresh_state = (Some (InsufficientBalance 0 1), fresh_state)"
  by (simp add: withdraw_uint256_def withdraw_uint256_body_def transact_def at_time_def
      fresh_state_def zeroAccount_def)

section \<open>C8: the generic deposit\<close>

text \<open>
  Claim C8, as amended.  A successful \<open>deposit(address,uint256)\<close> does not commit the
  accrual: it leaves the whole storage as it was, \<open>lastUpdate\<close> of the caller
  included, and only asks the named token for the transfer into custody and emits
  \<open>Deposit\<close>.
\<close>

theorem depositGeneric_ledger_unchanged:
  assumes "deposit_address_uint256 e token amount s = (None, s')"
  shows "s' = s\<lparr>effects := effects s @
           [SafeTransferFrom token (sender e) amount, Emit (Deposit (sender e) token amount)]\<rparr>"
  using assms
  by (auto simp: deposit_address_uint256_def deposit_address_uint256_body_def transact_def
      emit_def perform_def split: if_splits)

theorem depositGeneric_ledger_unchanged_witness:
  "deposit_address_uint256 (at_time 7 150) 5 3 example_state
     = (None, emit (Deposit 7 5 3) (perform (SafeTransferFrom 5 7 3) example_state)) \<and>
   accounts (snd (deposit_address_uint256 (at_time 7 150) 5 3 example_state))
     = accounts example_state"
proof -
  have a: "deposit_address_uint256 (at_time 7 150) 5 3 example_state
     = (None, emit (Deposit 7 5 3) (perform (SafeTransferFrom 5 7 3) example_state))"
    by (simp add: deposit_address_uint256_def deposit_address_uint256_body_def transact_def
        at_time_def example_state_def)
  from depositGeneric_ledger_unchanged [OF a] a show ?thesis by simp
qed

text \<open>
  Against claim C8 as stated: account \<open>7\<close> was last committed at time 100; a generic
  deposit at time 150 succeeds and leaves \<open>lastUpdate\<close> at 100, where the deposit of
  the staking token, which does commit, moves it to 150.
\<close>

theorem depositGeneric_no_commit_counterexample:
  "fst (deposit_address_uint256 (at_time 7 150) 5 3 example_state) = None \<and>
   lastUpdate (accounts (snd (deposit_address_uint256 (at_time 7 150) 5 3 example_state)) 7) = 100 \<and>
   timestamp (at_time 7 150) = 150 \<and>
   fst (deposit_uint256 (at_time 7 150) 3 example_state) = None \<and>
   lastUpdate (accounts (snd (deposit_uint256 (at_time 7 150) 3 example_state)) 7) = 150"
  by (simp add: deposit_address_uint256_def deposit_address_uint256_body_def
      deposit_uint256_def deposit_uint256_body_def updateRewards_def transact_def
      at_time_def example_state_def emit_def perform_def storeAccount_def Let_def
      checked_sub_def checked_mul_def checked_add_def UINT256_RANGE_def SCALE_def)
section \<open>What a successful stake and a successful annual withdrawal leave\<close>

lemma Account_eq_iff:
  "a = b \<longleftrightarrow> deposited a = deposited b \<and> staked a = staked b \<and>
     rewardsAccrued a = rewardsAccrued b \<and> lastUpdate a = lastUpdate b \<and>
     stakeStart a = stakeStart b \<and> rewardRemainder a = rewardRemainder b"
  for a b :: Account
  by (auto intro: Account.equality)

lemma state_eq_iff:
  "s = t \<longleftrightarrow> STAKING_TOKEN s = STAKING_TOKEN t \<and> rewardRate s = rewardRate t \<and>
     accounts s = accounts t \<and> totalStaked s = totalStaked t \<and> paused s = paused t \<and>
     adminRole s = adminRole t \<and> effects s = effects t"
  for s t :: state
  by (auto intro: state.equality)

lemma fun_upd_same_eq_iff: "f(u := a) = f(u := b) \<longleftrightarrow> a = b"
  by (metis fun_upd_same)

lemma stake_success_fields:
  assumes "stake e amount s = (None, s1)"
  shows "staked (accounts s1 (sender e)) = staked (accounts s (sender e)) + amount"
    and "totalStaked s1 = totalStaked s + amount"
    and "deposited (accounts s1 (sender e)) = deposited (accounts s (sender e))"
    and "staked (accounts s (sender e)) + amount \<le> deposited (accounts s (sender e))"
    and "stakeStart (accounts s1 (sender e)) =
           (if staked (accounts s (sender e)) = 0 then timestamp e
            else stakeStart (accounts s (sender e)))"
    and "STAKING_TOKEN s1 = STAKING_TOKEN s"
proof -
  from assms obtain s0 where u0: "updateRewards e (sender e) s = Done s0"
    by (auto simp: stake_def stake_body_def transact_def Let_def
        split: if_splits option.splits outcome.splits)
  note f = updateRewards_frame [OF u0]
  from assms u0 f(3,7,8,9)
  have *: "staked (accounts s (sender e)) \<le> deposited (accounts s (sender e)) \<and>
      amount \<le> deposited (accounts s (sender e)) - staked (accounts s (sender e)) \<and>
      s1 = emit (Stake (sender e) amount) (emit (Staked (sender e) amount)
        ((storeAccount (sender e)
           ((if staked (accounts s0 (sender e)) = 0
             then (accounts s0 (sender e))\<lparr>stakeStart := timestamp e\<rparr>
             else accounts s0 (sender e))\<lparr>staked := staked (accounts s (sender e)) + amount\<rparr>) s0)
          \<lparr>totalStaked := totalStaked s + amount\<rparr>))"
    by (auto simp: stake_def stake_body_def transact_def Let_def checked_add_def checked_sub_def
        storeAccount_def split: if_splits)
  show "staked (accounts s1 (sender e)) = staked (accounts s (sender e)) + amount"
    and "totalStaked s1 = totalStaked s + amount"
    and "deposited (accounts s1 (sender e)) = deposited (accounts s (sender e))"
    and "staked (accounts s (sender e)) + amount \<le> deposited (accounts s (sender e))"
    and "stakeStart (accounts s1 (sender e)) =
           (if staked (accounts s (sender e)) = 0 then timestamp e
            else stakeStart (accounts s (sender e)))"
    and "STAKING_TOKEN s1 = STAKING_TOKEN s"
    using * f by (auto simp: emit_def perform_def storeAccount_def)
qed

lemma withdraw_uint256_success:
  assumes "amount \<noteq> 0" and "amount \<le> staked (accounts s (sender e))"
    and "staked (accounts s (sender e)) \<le> deposited (accounts s (sender e))"
    and "staked (accounts s (sender e)) \<le> totalStaked s"
    and "stakeStart (accounts s (sender e)) \<le> timestamp e"
    and d: "duration = (if stakeStart (accounts s (sender e)) = 0 then 0
                     else timestamp e - stakeStart (accounts s (sender e)))"
    and r: "rewards = amount * ANNUAL_RATE_BPS * duration div (SECONDS_PER_YEAR * 10000)"
    and "amount * ANNUAL_RATE_BPS < UINT256_RANGE"
    and "amount * ANNUAL_RATE_BPS * duration < UINT256_RANGE"
    and "amount + rewards < UINT256_RANGE"
    and "custodyOk e"
  shows "withdraw_uint256 e amount s =
     (None, emit (Withdraw (sender e) amount rewards)
        (perform (SafeTransfer (STAKING_TOKEN s) (sender e) (amount + rewards))
          (storeAccount (sender e)
            ((accounts s (sender e))
               \<lparr>deposited := deposited (accounts s (sender e)) - amount,
                staked := staked (accounts s (sender e)) - amount,
                stakeStart := (if amount < staked (accounts s (sender e)) then timestamp e else 0)\<rparr>)
            (s\<lparr>totalStaked := totalStaked s - amount\<rparr>))))"
  using assms(1-5,8-11) unfolding r d
  by (auto simp: withdraw_uint256_def withdraw_uint256_body_def transact_def Let_def
      checked_add_def checked_sub_def checked_mul_def storeAccount_def emit_def perform_def
      state_eq_iff fun_upd_same_eq_iff Account_eq_iff split: if_splits)
section \<open>C7: scenario E\<close>

text \<open>
  Claim C7, as amended.  An account with nothing staked stakes 100 at \<open>t0\<close>, which
  sets \<open>stakeStart = t0\<close>, and withdraws 50 on the annual path 2,592,000 seconds later.
  The reward is \<open>50 * 500 * 2592000 div (31536000 * 10000)\<close>, which truncates to 0 (not
  to 1), so the call pays out \<open>50 + 0\<close>, emits \<open>Withdraw(user, 50, 0)\<close>, and leaves 50
  staked with the clock restarted.
\<close>

theorem scenario_E_annual_reward:
  assumes st: "stake e0 100 s = (None, s1)"
    and fresh: "staked (accounts s (sender e0)) = 0"
    and same: "sender e1 = sender e0"
    and later: "timestamp e1 = timestamp e0 + 2592000"
    and ok: "custodyOk e1"
  shows "stakeStart (accounts s1 (sender e0)) = timestamp e0 \<and>
         50 * ANNUAL_RATE_BPS * 2592000 div (SECONDS_PER_YEAR * 10000) = 0 \<and>
         (\<exists>s2. withdraw_uint256 e1 50 s1 = (None, s2) \<and>
            effects s2 = effects s1 @
              [SafeTransfer (STAKING_TOKEN s1) (sender e0) (50 + 0),
               Emit (Withdraw (sender e0) 50 0)] \<and>
            staked (accounts s2 (sender e0)) = 50 \<and>
            deposited (accounts s2 (sender e0)) = deposited (accounts s (sender e0)) - 50 \<and>
            totalStaked s2 = totalStaked s + 50 \<and>
            stakeStart (accounts s2 (sender e0)) = timestamp e1)"
proof -
  note f = stake_success_fields [OF st]
  let ?a = "accounts s1 (sender e1)"
  have start: "stakeStart (accounts s1 (sender e0)) = timestamp e0"
    using f(5) fresh by simp
  have formula: "50 * ANNUAL_RATE_BPS * 2592000 div (SECONDS_PER_YEAR * 10000) = 0"
    by (simp add: ANNUAL_RATE_BPS_def SECONDS_PER_YEAR_def)
  define duration where "duration = (if stakeStart ?a = 0 then 0 else timestamp e1 - stakeStart ?a)"
  define rewards where "rewards = 50 * ANNUAL_RATE_BPS * duration div (SECONDS_PER_YEAR * 10000)"
  have dur: "duration = 0 \<or> duration = 2592000"
    using start same later by (simp add: duration_def)
  have rw: "rewards = 0"
    using dur by (auto simp: rewards_def ANNUAL_RATE_BPS_def SECONDS_PER_YEAR_def)
  have w: "withdraw_uint256 e1 50 s1 =
     (None, emit (Withdraw (sender e1) 50 rewards)
        (perform (SafeTransfer (STAKING_TOKEN s1) (sender e1) (50 + rewards))
          (storeAccount (sender e1)
            (?a\<lparr>deposited := deposited ?a - 50, staked := staked ?a - 50,
                stakeStart := (if 50 < staked ?a then timestamp e1 else 0)\<rparr>)
            (s1\<lparr>totalStaked := totalStaked s1 - 50\<rparr>))))"
  proof (rule withdraw_uint256_success [OF _ _ _ _ _ duration_def rewards_def _ _ _ ok])
    show "(50::nat) \<noteq> 0" by simp
    show "50 \<le> staked ?a" using f(1) fresh same by simp
    show "staked ?a \<le> deposited ?a" using f(1,3,4) same by simp
    show "staked ?a \<le> totalStaked s1" using f(1,2) fresh same by simp
    show "stakeStart ?a \<le> timestamp e1" using start same later by simp
    show "50 * ANNUAL_RATE_BPS < UINT256_RANGE"
      by (simp add: ANNUAL_RATE_BPS_def UINT256_RANGE_def)
    show "50 * ANNUAL_RATE_BPS * duration < UINT256_RANGE"
      using dur by (auto simp: ANNUAL_RATE_BPS_def UINT256_RANGE_def)
    show "50 + rewards < UINT256_RANGE" using rw by (simp add: UINT256_RANGE_def)
  qed
  show ?thesis
    using start formula f(1,2,3) fresh same
    by (simp add: w rw emit_def perform_def storeAccount_def)
qed

theorem scenario_E_annual_reward_witness:
  "\<exists>s1 s2. stake (at_time 7 1000) 100 (snd (deposit_uint256 (at_time 7 1000) 100 fresh_state))
       = (None, s1) \<and>
     withdraw_uint256 (at_time 7 2593000) 50 s1 = (None, s2) \<and>
     stakeStart (accounts s1 7) = 1000 \<and>
     effects s2 = effects s1 @ [SafeTransfer 1 7 50, Emit (Withdraw 7 50 0)]"
proof -
  define s0 where "s0 = snd (deposit_uint256 (at_time 7 1000) 100 fresh_state)"
  define s1 where "s1 = snd (stake (at_time 7 1000) 100 s0)"
  have s0: "s0 = \<lparr>STAKING_TOKEN = 1, rewardRate = 300000000000000000,
      accounts = (\<lambda>_. zeroAccount)(7 := \<lparr>deposited = 100, staked = 0, rewardsAccrued = 0,
         lastUpdate = 1000, stakeStart = 0, rewardRemainder = 0\<rparr>),
      totalStaked = 0, paused = False, adminRole = (\<lambda>a. a = 9),
      effects = [SafeTransferFrom 1 7 100, Emit (Deposited 7 100)]\<rparr>"
    unfolding s0_def
    by (simp add: deposit_uint256_def deposit_uint256_body_def updateRewards_def transact_def
        at_time_def fresh_state_def zeroAccount_def emit_def perform_def storeAccount_def
        Let_def checked_add_def UINT256_RANGE_def)
  have st: "stake (at_time 7 1000) 100 s0 = (None, s1)"
    unfolding s1_def s0
    by (simp add: stake_def stake_body_def updateRewards_def transact_def
        at_time_def zeroAccount_def emit_def perform_def storeAccount_def
        Let_def checked_add_def checked_sub_def UINT256_RANGE_def)
  have fresh: "staked (accounts s0 (sender (at_time 7 1000))) = 0"
    by (simp add: s0 at_time_def)
  have tok: "STAKING_TOKEN s1 = 1"
    using stake_success_fields(6) [OF st] by (simp add: s0)
  from scenario_E_annual_reward [OF st fresh, of "at_time 7 2593000"] tok st
  show ?thesis unfolding s0_def by (auto simp: at_time_def)
qed

text \<open>
  Against claim C7 as stated: the quotient is not 1, neither in whole units nor when a
  unit is \<open>10 ^ 18\<close> base units, and on the ledger the constructor leaves, after a
  deposit and a stake of 100 at time 1000, the withdrawal of 50 at time 2,593,000
  transfers 50 and reports a reward of 0.
\<close>

theorem scenario_E_reward_counterexample:
  "50 * ANNUAL_RATE_BPS * 2592000 div (SECONDS_PER_YEAR * 10000) \<noteq> 1 \<and>
   50 * 10 ^ 18 * ANNUAL_RATE_BPS * 2592000 div (SECONDS_PER_YEAR * 10000)
     = 205479452054794520 \<and>
   withdraw_uint256 (at_time 7 2593000) 50
     (snd (stake (at_time 7 1000) 100 (snd (deposit_uint256 (at_time 7 1000) 100 fresh_state))))
   = (None,
      \<lparr>STAKING_TOKEN = 1, rewardRate = 300000000000000000,
        accounts = (\<lambda>_. zeroAccount)(7 := \<lparr>deposited = 50, staked = 50, rewardsAccrued = 0,
           lastUpdate = 1000, stakeStart = 2593000, rewardRemainder = 0\<rparr>),
        totalStaked = 50, paused = False, adminRole = (\<lambda>a. a = 9),
        effects = [SafeTransferFrom 1 7 100, Emit (Deposited 7 100), Emit (Staked 7 100),
          Emit (Stake 7 100), SafeTransfer 1 7 50, Emit (Withdraw 7 50 0)]\<rparr>)"
  by (simp add: withdraw_uint256_def withdraw_uint256_body_def stake_def stake_body_def
      deposit_uint256_def deposit_uint256_body_def updateRewards_def transact_def
      at_time_def fresh_state_def zeroAccount_def emit_def perform_def storeAccount_def
      Let_def checked_add_def checked_sub_def checked_mul_def UINT256_RANGE_def
      ANNUAL_RATE_BPS_def SECONDS_PER_YEAR_def)
section \<open>The frame of every call\<close>

text \<open>
  Every call, whether it succeeds or reverts, satisfies \<open>step_ok\<close> for its sender.
\<close>

lemma updateRewards_others:
  assumes "updateRewards e u s = Done s1"
  shows "v \<noteq> u \<Longrightarrow> accounts s1 v = accounts s v"
  using updateRewards_frame(6) [OF assms] by (metis fun_upd_other)

lemma step_ok_refl: "step_ok u s s"
  by (simp add: step_ok_def)

lemma deposit_uint256_step: "step_ok (sender e) s (snd (deposit_uint256 e amount s))"
proof (cases "deposit_uint256_body e amount s")
  case (Reverted err sp)
  then show ?thesis by (simp add: deposit_uint256_def transact_def step_ok_refl)
next
  case (Done s')
  then obtain s0 where u0: "updateRewards e (sender e) s = Done s0"
    by (auto simp: deposit_uint256_body_def Let_def split: if_splits option.splits outcome.splits)
  note f = updateRewards_frame(1-5,7-10) [OF u0] updateRewards_remainder [OF u0]
    updateRewards_others [OF u0]
  from Done u0 f show ?thesis
    by (auto simp: deposit_uint256_def deposit_uint256_body_def transact_def Let_def
        storeAccount_def emit_def perform_def step_ok_def split: if_splits option.splits)
qed

lemma deposit_address_uint256_step:
  "step_ok (sender e) s (snd (deposit_address_uint256 e token amount s))"
  by (auto simp: deposit_address_uint256_def deposit_address_uint256_body_def transact_def
      emit_def perform_def step_ok_def)

lemma stake_step: "step_ok (sender e) s (snd (stake e amount s))"
proof (cases "stake_body e amount s")
  case (Reverted err sp)
  then show ?thesis by (simp add: stake_def transact_def step_ok_refl)
next
  case (Done s')
  then obtain s0 where u0: "updateRewards e (sender e) s = Done s0"
    by (auto simp: stake_body_def Let_def split: if_splits option.splits outcome.splits)
  note f = updateRewards_frame(1-5,7-10) [OF u0] updateRewards_remainder [OF u0]
    updateRewards_others [OF u0]
  from Done u0 f show ?thesis
    by (auto simp: stake_def stake_body_def transact_def Let_def checked_add_def
        storeAccount_def emit_def perform_def step_ok_def split: if_splits option.splits)
qed

lemma unstake_step: "step_ok (sender e) s (snd (unstake e amount s))"
proof (cases "unstake_body e amount s")
  case (Reverted err sp)
  then show ?thesis by (simp add: unstake_def transact_def step_ok_refl)
next
  case (Done s')
  then obtain s0 where u0: "updateRewards e (sender e) s = Done s0"
    by (auto simp: unstake_body_def Let_def split: if_splits option.splits outcome.splits)
  note f = updateRewards_frame(1-5,7-10) [OF u0]
  note g = updateRewards_remainder [OF u0] updateRewards_others [OF u0]
  let ?u = "sender e"
  let ?a1 = "(accounts s0 ?u)\<lparr>staked := staked (accounts s0 ?u) - amount\<rparr>"
  from Done u0 have c: "amount \<le> staked (accounts s0 ?u)" "amount \<le> totalStaked s0"
    and s': "s' = emit (Unstaked ?u amount)
        (storeAccount ?u (if staked ?a1 = 0 then ?a1\<lparr>stakeStart := 0\<rparr> else ?a1)
          ((storeAccount ?u ?a1 s0)\<lparr>totalStaked := totalStaked s0 - amount\<rparr>))"
    by (auto simp: unstake_body_def Let_def checked_sub_def storeAccount_def
        split: if_splits)
  have r: "snd (unstake e amount s) = s'"
    using Done by (simp add: unstake_def transact_def)
  have 1: "\<forall>v. v \<noteq> ?u \<longrightarrow> accounts s' v = accounts s v"
    using g(2) by (simp add: s' emit_def perform_def storeAccount_def)
  have 2: "rewardRemainder (accounts s' ?u) = rewardRemainder (accounts s0 ?u)"
    by (simp add: s' emit_def perform_def storeAccount_def)
  have 3: "totalStaked s' = totalStaked s - amount"
    "staked (accounts s' ?u) = staked (accounts s ?u) - amount"
    using f by (simp_all add: s' emit_def perform_def storeAccount_def)
  have 4: "amount \<le> staked (accounts s ?u)" "amount \<le> totalStaked s"
    using c f by simp_all
  show ?thesis
    unfolding r step_ok_def using 1 2 3 4 g(1) by simp
qed

lemma withdraw_uint256_bool_step:
  "step_ok (sender e) s (snd (withdraw_uint256_bool e amount claim s))"
proof (cases "withdraw_uint256_bool_body e amount claim s")
  case (Reverted err sp)
  then show ?thesis by (simp add: withdraw_uint256_bool_def transact_def step_ok_refl)
next
  case (Done s')
  then obtain s0 where u0: "updateRewards e (sender e) s = Done s0"
    by (auto simp: withdraw_uint256_bool_body_def Let_def
        split: if_splits option.splits outcome.splits)
  note f = updateRewards_frame(1-5,7-10) [OF u0] updateRewards_remainder [OF u0]
    updateRewards_others [OF u0]
  from Done u0 f show ?thesis
    by (auto simp: withdraw_uint256_bool_def withdraw_uint256_bool_body_def transact_def Let_def
        storeAccount_def emit_def perform_def step_ok_def split: if_splits option.splits)
qed

lemma withdraw_uint256_step: "step_ok (sender e) s (snd (withdraw_uint256 e amount s))"
  by (auto simp: withdraw_uint256_def withdraw_uint256_body_def transact_def Let_def
      checked_sub_def storeAccount_def emit_def perform_def step_ok_def
      split: if_splits option.splits)

lemma admin_steps:
  "step_ok (sender e) s (snd (setRewardRate e newRate s))"
  "step_ok (sender e) s (snd (pause e s))"
  "step_ok (sender e) s (snd (unpause e s))"
  by (auto simp: setRewardRate_def setRewardRate_body_def pause_def pause_body_def
      unpause_def unpause_body_def transact_def emit_def perform_def step_ok_def)

lemma exec_step: "step_ok (sender e) s (snd (exec e c s))"
  by (cases c)
    (simp_all add: deposit_uint256_step deposit_address_uint256_step stake_step unstake_step
      withdraw_uint256_bool_step withdraw_uint256_step admin_steps)
section \<open>C3: \<open>totalStaked\<close> is the sum of the stakes\<close>

lemma sum_change_one:
  fixes f g :: "address \<Rightarrow> nat"
  assumes "\<forall>v. v \<noteq> u \<longrightarrow> g v = f v"
  shows "sum g UNIV + f u = sum f UNIV + g u"
proof -
  have g: "sum g UNIV = g u + sum g (UNIV - {u})" by (rule sum.remove) simp_all
  have f: "sum f UNIV = f u + sum f (UNIV - {u})" by (rule sum.remove) simp_all
  have "sum g (UNIV - {u}) = sum f (UNIV - {u})"
    using assms by (intro sum.cong) auto
  then show ?thesis using f g by simp
qed

lemma reachable_fresh_state: "reachable fresh_state"
  using fresh_state_constructor by (rule reachable_constructor)

text \<open>
  What the calls do to the two quantities: a successful \<open>stake\<close> adds the amount
  to the sender's \<open>staked\<close> and to \<open>totalStaked\<close> (\<open>stake_success_fields\<close>), a
  successful \<open>unstake\<close> and a successful annual withdrawal subtract it from both, and
  no other call changes either.
\<close>

lemma unstake_success_fields:
  assumes "unstake e amount s = (None, s1)"
  shows "staked (accounts s1 (sender e)) = staked (accounts s (sender e)) - amount"
    and "totalStaked s1 = totalStaked s - amount"
    and "amount \<le> staked (accounts s (sender e))"
    and "amount \<le> totalStaked s"
proof -
  from assms obtain s0 where u0: "updateRewards e (sender e) s = Done s0"
    by (auto simp: unstake_def unstake_body_def transact_def Let_def
        split: if_splits option.splits outcome.splits)
  note f = updateRewards_frame(3,8) [OF u0]
  let ?u = "sender e"
  let ?a1 = "(accounts s0 ?u)\<lparr>staked := staked (accounts s0 ?u) - amount\<rparr>"
  from assms u0 have c: "amount \<le> staked (accounts s0 ?u)" "amount \<le> totalStaked s0"
    and s1: "s1 = emit (Unstaked ?u amount)
        (storeAccount ?u (if staked ?a1 = 0 then ?a1\<lparr>stakeStart := 0\<rparr> else ?a1)
          ((storeAccount ?u ?a1 s0)\<lparr>totalStaked := totalStaked s0 - amount\<rparr>))"
    by (auto simp: unstake_def unstake_body_def transact_def Let_def checked_sub_def
        storeAccount_def split: if_splits)
  show "staked (accounts s1 (sender e)) = staked (accounts s (sender e)) - amount"
    and "totalStaked s1 = totalStaked s - amount"
    and "amount \<le> staked (accounts s (sender e))"
    and "amount \<le> totalStaked s"
    using c f by (simp_all add: s1 emit_def perform_def storeAccount_def)
qed

lemma withdraw_uint256_success_fields:
  assumes "withdraw_uint256 e amount s = (None, s1)"
  shows "staked (accounts s1 (sender e)) = staked (accounts s (sender e)) - amount"
    and "totalStaked s1 = totalStaked s - amount"
    and "amount \<le> staked (accounts s (sender e))"
    and "amount \<le> totalStaked s"
  using assms
  by (auto simp: withdraw_uint256_def withdraw_uint256_body_def transact_def Let_def
      checked_sub_def storeAccount_def emit_def perform_def split: if_splits option.splits)

lemma other_calls_keep_stakes:
  assumes "exec e c s = (None, s1)"
    and "\<forall>a. c \<noteq> CallStake a \<and> c \<noteq> CallUnstake a \<and> c \<noteq> CallWithdrawAnnual a"
  shows "staked (accounts s1 v) = staked (accounts s v) \<and> totalStaked s1 = totalStaked s"
proof (cases c)
  case (CallDeposit amount)
  with assms(1) obtain s0 where u0: "updateRewards e (sender e) s = Done s0"
    by (auto simp: deposit_uint256_def deposit_uint256_body_def transact_def Let_def
        split: if_splits option.splits outcome.splits)
  note f = updateRewards_frame(3,8) [OF u0] updateRewards_others [OF u0]
  from assms(1) CallDeposit u0 f show ?thesis
    by (cases "v = sender e")
      (auto simp: deposit_uint256_def deposit_uint256_body_def transact_def Let_def
        storeAccount_def emit_def perform_def split: if_splits option.splits)
next
  case (CallWithdrawPrincipal amount claim)
  with assms(1) obtain s0 where u0: "updateRewards e (sender e) s = Done s0"
    by (auto simp: withdraw_uint256_bool_def withdraw_uint256_bool_body_def transact_def Let_def
        split: if_splits option.splits outcome.splits)
  note f = updateRewards_frame(3,8) [OF u0] updateRewards_others [OF u0]
  from assms(1) CallWithdrawPrincipal u0 f show ?thesis
    by (cases "v = sender e")
      (auto simp: withdraw_uint256_bool_def withdraw_uint256_bool_body_def transact_def Let_def
        storeAccount_def emit_def perform_def split: if_splits option.splits)
qed (use assms in \<open>auto simp: deposit_address_uint256_def deposit_address_uint256_body_def
      setRewardRate_def setRewardRate_body_def pause_def pause_body_def unpause_def
      unpause_body_def transact_def emit_def perform_def split: if_splits\<close>)

text \<open>
  Claim C3.  In every state the contract can reach, that is after the constructor and
  after every call, completed or reverted, \<open>totalStaked\<close> is the sum of \<open>staked\<close>
  over all accounts.  The step behind it is \<open>exec_step\<close>: a call changes the stake of no
  account but the sender's, and changes \<open>totalStaked\<close> by exactly as much as that one.
\<close>

theorem totalStaked_is_sum_of_staked:
  assumes "reachable s"
  shows "totalStaked s = (\<Sum>a\<in>UNIV. staked (accounts s a))"
  using assms
proof (induction rule: reachable.induct)
  case (reachable_constructor stakingToken initialRate admin s)
  then show ?case
    by (auto simp: constructor_def zeroAccount_def split: if_splits)
next
  case (reachable_exec s e c)
  let ?s' = "snd (exec e c s)"
  from exec_step [of e s c]
  have same: "\<forall>v. v \<noteq> sender e \<longrightarrow> staked (accounts ?s' v) = staked (accounts s v)"
    and bal: "totalStaked ?s' + staked (accounts s (sender e))
        = totalStaked s + staked (accounts ?s' (sender e))"
    by (simp_all add: step_ok_def)
  from sum_change_one [OF same]
  have "(\<Sum>a\<in>UNIV. staked (accounts ?s' a)) + staked (accounts s (sender e))
      = (\<Sum>a\<in>UNIV. staked (accounts s a)) + staked (accounts ?s' (sender e))" .
  then show ?case using bal reachable_exec.IH by simp
next
  case (reachable_roles s r)
  then show ?case by simp
qed

theorem totalStaked_is_sum_of_staked_witness:
  "totalStaked (snd (exec (at_time 7 1000) (CallStake 60)
       (snd (exec (at_time 7 1000) (CallDeposit 100) fresh_state)))) = 60 \<and>
   (\<Sum>a\<in>UNIV. staked (accounts (snd (exec (at_time 7 1000) (CallStake 60)
       (snd (exec (at_time 7 1000) (CallDeposit 100) fresh_state)))) a)) = 60"
proof -
  let ?s = "snd (exec (at_time 7 1000) (CallStake 60)
       (snd (exec (at_time 7 1000) (CallDeposit 100) fresh_state)))"
  have r: "reachable ?s"
    by (intro reachable_exec reachable_fresh_state)
  have t: "totalStaked ?s = 60"
    by (simp add: stake_def stake_body_def
      deposit_uint256_def deposit_uint256_body_def updateRewards_def transact_def
      at_time_def fresh_state_def zeroAccount_def emit_def perform_def storeAccount_def
      Let_def checked_add_def checked_sub_def UINT256_RANGE_def)
  from totalStaked_is_sum_of_staked [OF r] t show ?thesis by simp
qed

section \<open>C6: the remainder stays below \<open>SCALE\<close>\<close>

text \<open>
  Claim C6.  In every state the contract can reach, the \<open>rewardRemainder\<close> of every
  account is below \<open>SCALE = 10 ^ 18\<close> (and, a natural number, at least 0): the
  constructor leaves it 0 and the only write is \<open>totalScaled mod SCALE\<close> in
  \<open>updateRewards\<close>.
\<close>

theorem rewardRemainder_below_SCALE:
  assumes "reachable s"
  shows "rewardRemainder (accounts s a) < SCALE"
  using assms
proof (induction arbitrary: a rule: reachable.induct)
  case (reachable_constructor stakingToken initialRate admin s)
  then show ?case
    by (auto simp: constructor_def zeroAccount_def SCALE_def split: if_splits)
next
  case (reachable_exec s e c)
  from exec_step [of e s c] reachable_exec.IH [of a] reachable_exec.IH [of "sender e"]
  show ?case by (cases "a = sender e") (auto simp: step_ok_def)
next
  case (reachable_roles s r)
  then show ?case by simp
qed

theorem rewardRemainder_below_SCALE_witness:
  "rewardRemainder (accounts (snd (exec (at_time 7 121) (CallWithdrawPrincipal 0 False)
       (snd (exec (at_time 7 100) (CallStake 7)
         (snd (exec (at_time 7 100) (CallDeposit 10) fresh_state)))))) 7)
     = 100000000000000000 \<and>
   rewardRemainder (accounts (snd (exec (at_time 7 121) (CallWithdrawPrincipal 0 False)
       (snd (exec (at_time 7 100) (CallStake 7)
         (snd (exec (at_time 7 100) (CallDeposit 10) fresh_state)))))) 7) < SCALE"
proof -
  let ?s = "snd (exec (at_time 7 121) (CallWithdrawPrincipal 0 False)
       (snd (exec (at_time 7 100) (CallStake 7)
         (snd (exec (at_time 7 100) (CallDeposit 10) fresh_state)))))"
  have r: "reachable ?s"
    by (intro reachable_exec reachable_fresh_state)
  have t: "rewardRemainder (accounts ?s 7) = 100000000000000000"
    by (simp add: stake_def stake_body_def withdraw_uint256_bool_def
      withdraw_uint256_bool_body_def
      deposit_uint256_def deposit_uint256_body_def updateRewards_def transact_def
      at_time_def fresh_state_def zeroAccount_def emit_def perform_def storeAccount_def
      Let_def checked_add_def checked_sub_def checked_mul_def UINT256_RANGE_def SCALE_def)
  from rewardRemainder_below_SCALE [OF r, of 7] t show ?thesis by simp
qed
section \<open>Every account with a stake has a checkpoint\<close>

text \<open>
  A call by \<open>u\<close> either commits, which sets \<open>lastUpdate\<close> of \<open>u\<close> to the time of the
  call, or leaves that checkpoint alone and does not raise the stake.  So after the
  constructor and any calls at positive block times, an account with a stake has a
  nonzero \<open>lastUpdate\<close>.
\<close>

lemma exec_checkpoint:
  "lastUpdate (accounts (snd (exec e c s)) (sender e)) = timestamp e \<or>
   (lastUpdate (accounts (snd (exec e c s)) (sender e)) = lastUpdate (accounts s (sender e)) \<and>
    staked (accounts (snd (exec e c s)) (sender e)) \<le> staked (accounts s (sender e)))"
proof (cases "fst (exec e c s)")
  case (Some err)
  then have "exec e c s = (Some err, snd (exec e c s))" by (metis prod.collapse)
  then have "snd (exec e c s) = s"
    by (cases c)
      (auto simp: transact_def deposit_uint256_def deposit_address_uint256_def stake_def
        unstake_def withdraw_uint256_bool_def withdraw_uint256_def setRewardRate_def pause_def
        unpause_def split: outcome.splits)
  then show ?thesis by simp
next
  case None
  then have ok: "exec e c s = (None, snd (exec e c s))" by (metis prod.collapse)
  show ?thesis
  proof (cases c)
    case (CallDeposit amount)
    with ok obtain s0 where u0: "updateRewards e (sender e) s = Done s0"
      by (auto simp: deposit_uint256_def deposit_uint256_body_def transact_def Let_def
          split: if_splits option.splits outcome.splits)
    note f = updateRewards_frame(10) [OF u0]
    from ok CallDeposit u0 f show ?thesis
      by (auto simp: deposit_uint256_def deposit_uint256_body_def transact_def Let_def
          storeAccount_def emit_def perform_def split: if_splits option.splits)
  next
    case (CallStake amount)
    with ok obtain s0 where u0: "updateRewards e (sender e) s = Done s0"
      by (auto simp: stake_def stake_body_def transact_def Let_def
          split: if_splits option.splits outcome.splits)
    note f = updateRewards_frame(10) [OF u0]
    from ok CallStake u0 f show ?thesis
      by (auto simp: stake_def stake_body_def transact_def Let_def
          storeAccount_def emit_def perform_def split: if_splits option.splits)
  next
    case (CallUnstake amount)
    with ok obtain s0 where u0: "updateRewards e (sender e) s = Done s0"
      by (auto simp: unstake_def unstake_body_def transact_def Let_def
          split: if_splits option.splits outcome.splits)
    note f = updateRewards_frame(10) [OF u0]
    from ok CallUnstake u0 f show ?thesis
      by (auto simp: unstake_def unstake_body_def transact_def Let_def
          storeAccount_def emit_def perform_def split: if_splits option.splits)
  next
    case (CallWithdrawPrincipal amount claim)
    with ok obtain s0 where u0: "updateRewards e (sender e) s = Done s0"
      by (auto simp: withdraw_uint256_bool_def withdraw_uint256_bool_body_def transact_def
          Let_def split: if_splits option.splits outcome.splits)
    note f = updateRewards_frame(10) [OF u0]
    from ok CallWithdrawPrincipal u0 f show ?thesis
      by (auto simp: withdraw_uint256_bool_def withdraw_uint256_bool_body_def transact_def
          Let_def storeAccount_def emit_def perform_def split: if_splits option.splits)
  next
    case (CallWithdrawAnnual amount)
    with ok show ?thesis
      using withdraw_uint256_success_fields(1) [of e amount s "snd (exec e c s)"]
      by (auto simp: withdraw_uint256_def withdraw_uint256_body_def transact_def Let_def
          checked_sub_def storeAccount_def emit_def perform_def
          split: if_splits option.splits)
  qed (use ok in \<open>auto simp: deposit_address_uint256_def deposit_address_uint256_body_def
      setRewardRate_def setRewardRate_body_def pause_def pause_body_def unpause_def
      unpause_body_def transact_def emit_def perform_def split: if_splits\<close>)
qed

lemma exec_keeps_staked_touched:
  assumes now: "0 < timestamp e"
    and inv: "\<forall>a. 0 < staked (accounts s a) \<longrightarrow> lastUpdate (accounts s a) \<noteq> 0"
  shows "\<forall>a. 0 < staked (accounts (snd (exec e c s)) a) \<longrightarrow>
           lastUpdate (accounts (snd (exec e c s)) a) \<noteq> 0"
proof (intro allI impI)
  fix a
  assume st: "0 < staked (accounts (snd (exec e c s)) a)"
  show "lastUpdate (accounts (snd (exec e c s)) a) \<noteq> 0"
  proof (cases "a = sender e")
    case True
    with exec_checkpoint [of e c s] now inv st show ?thesis by auto
  next
    case False
    with exec_step [of e s c] have "accounts (snd (exec e c s)) a = accounts s a"
      by (simp add: step_ok_def)
    with inv st show ?thesis by simp
  qed
qed

lemma staked_accounts_are_touched:
  assumes "constructor stakingToken initialRate admin = Inr s"
    and "\<forall>(e, c) \<in> set cs. 0 < timestamp e"
  shows "0 < staked (accounts (execAll cs s) a) \<longrightarrow> lastUpdate (accounts (execAll cs s) a) \<noteq> 0"
proof -
  have init: "\<forall>a. 0 < staked (accounts s a) \<longrightarrow> lastUpdate (accounts s a) \<noteq> 0"
    using assms(1) by (auto simp: constructor_def zeroAccount_def split: if_splits)
  have "\<forall>a. 0 < staked (accounts (execAll cs s) a) \<longrightarrow>
      lastUpdate (accounts (execAll cs s) a) \<noteq> 0"
    using init assms(2)
  proof (induction cs arbitrary: s)
    case Nil
    then show ?case by simp
  next
    case (Cons x cs)
    obtain e c where x: "x = (e, c)" by (cases x)
    have now: "0 < timestamp e" using Cons.prems(2) x by simp
    have rest: "\<forall>(e, c) \<in> set cs. 0 < timestamp e" using Cons.prems(2) by simp
    from Cons.IH [OF exec_keeps_staked_touched [OF now Cons.prems(1)] rest]
    show ?case by (simp add: x)
  qed
  then show ?thesis by blast
qed
section \<open>The example ledgers are reachable\<close>

lemma example_state_reachable: "reachable example_state"
proof -
  have "reachable (snd (exec (at_time 7 100) (CallStake 7)
      (snd (exec (at_time 7 100) (CallDeposit 10) fresh_state))))"
    by (intro reachable_exec reachable_fresh_state)
  moreover have "snd (exec (at_time 7 100) (CallStake 7)
      (snd (exec (at_time 7 100) (CallDeposit 10) fresh_state))) = example_state"
    by (simp add: stake_def stake_body_def
      deposit_uint256_def deposit_uint256_body_def updateRewards_def transact_def
      at_time_def example_state_def fresh_state_def zeroAccount_def emit_def perform_def
      storeAccount_def Let_def checked_add_def checked_sub_def UINT256_RANGE_def
      fun_upd_same_eq_iff)
  ultimately show ?thesis by simp
qed

lemma overflow_state_rate: "rewardRate overflow_state = 2 ^ 255"
  by (simp add: overflow_state_def)

lemma overflow_state_reachable: "reachable overflow_state"
proof -
  let ?r = "57896044618658097711785492504343953926634992332820282019728792003956564819968"
  let ?s0 = "\<lparr>STAKING_TOKEN = 1, rewardRate = ?r,
      accounts = (\<lambda>_. zeroAccount), totalStaked = 0, paused = False,
      adminRole = (\<lambda>a. a = 9), effects = []\<rparr>"
  have "constructor 1 ?r 9 = Inr ?s0" by (simp add: constructor_def)
  then have "reachable ?s0" by (rule reachable_constructor)
  then have "reachable (snd (exec (at_time 7 100) (CallStake 2)
      (snd (exec (at_time 7 100) (CallDeposit 10) ?s0))))"
    by (intro reachable_exec)
  moreover have "snd (exec (at_time 7 100) (CallStake 2)
      (snd (exec (at_time 7 100) (CallDeposit 10) ?s0))) = overflow_state"
    by (simp add: stake_def stake_body_def
      deposit_uint256_def deposit_uint256_body_def updateRewards_def transact_def
      at_time_def overflow_state_def zeroAccount_def emit_def perform_def storeAccount_def
      Let_def checked_add_def checked_sub_def UINT256_RANGE_def fun_upd_same_eq_iff)
  ultimately show ?thesis by simp
qed


lemma split_overflow_state_reachable: "reachable split_overflow_state"
proof -
  let ?r = "57896044618658097711785492504343953926634992332820282019728792003956564819968"
  let ?init = "\<lparr>STAKING_TOKEN = 1, rewardRate = ?r,
      accounts = (\<lambda>_. zeroAccount), totalStaked = 0, paused = False,
      adminRole = (\<lambda>a. a = 9), effects = []\<rparr>"
  have "constructor 1 ?r 9 = Inr ?init" by (simp add: constructor_def)
  then have "reachable ?init" by (rule reachable_constructor)
  then have "reachable (snd (exec (at_time 7 100) (CallStake 1)
      (snd (exec (at_time 7 100) (CallDeposit 10) ?init))))"
    by (intro reachable_exec)
  moreover have "snd (exec (at_time 7 100) (CallStake 1)
      (snd (exec (at_time 7 100) (CallDeposit 10) ?init))) = split_overflow_state"
    by (simp add: stake_def stake_body_def
      deposit_uint256_def deposit_uint256_body_def updateRewards_def transact_def
      at_time_def split_overflow_state_def zeroAccount_def emit_def perform_def storeAccount_def
      Let_def checked_add_def checked_sub_def UINT256_RANGE_def fun_upd_same_eq_iff)
  ultimately show ?thesis by simp
qed

section \<open>What a withdrawal of idle principal needs and leaves\<close>

lemma updateRewards_Reverted_Panic:
  "updateRewards e u s = Reverted err sp \<Longrightarrow> err = Panic"
  by (auto simp: updateRewards_def Let_def split: if_splits option.splits)

lemma withdraw_uint256_bool_success:
  assumes idle: "staked (accounts s (sender e)) + amountPrincipal \<le> deposited (accounts s (sender e))"
    and u0: "updateRewards e (sender e) s = Done s0"
    and out: "rewardsOut = (if claimRewards then rewardsAccrued (accounts s0 (sender e)) else 0)"
    and fits: "amountPrincipal + rewardsOut < UINT256_RANGE"
    and ok: "custodyOk e"
  shows "withdraw_uint256_bool e amountPrincipal claimRewards s =
     (None, emit (Withdrawn (sender e) amountPrincipal rewardsOut)
        (perform (SafeTransfer (STAKING_TOKEN s) (sender e) (amountPrincipal + rewardsOut))
          (storeAccount (sender e)
            ((accounts s0 (sender e))
               \<lparr>deposited := deposited (accounts s (sender e)) - amountPrincipal,
                rewardsAccrued := (if claimRewards then 0
                                   else rewardsAccrued (accounts s0 (sender e)))\<rparr>)
            s0)))"
proof -
  note f = updateRewards_frame(1,7,8) [OF u0]
  show ?thesis
    using idle fits ok f unfolding out
    by (auto simp: withdraw_uint256_bool_def withdraw_uint256_bool_body_def transact_def u0
        Let_def checked_add_def checked_sub_def storeAccount_def emit_def perform_def
        state_eq_iff fun_upd_same_eq_iff Account_eq_iff)
qed

lemma withdraw_uint256_bool_Done:
  assumes "withdraw_uint256_bool e amountPrincipal claimRewards s = (None, s')"
  shows "\<exists>s0. updateRewards e (sender e) s = Done s0 \<and>
     staked (accounts s (sender e)) + amountPrincipal \<le> deposited (accounts s (sender e)) \<and>
     amountPrincipal + (if claimRewards then rewardsAccrued (accounts s0 (sender e)) else 0)
       < UINT256_RANGE \<and> custodyOk e"
  using assms
  by (auto simp: withdraw_uint256_bool_def withdraw_uint256_bool_body_def transact_def
      Let_def checked_add_def checked_sub_def
      split: if_splits option.splits outcome.splits dest: updateRewards_frame(7,8))
section \<open>C4: the pause gates staking, not the withdrawals\<close>

lemma withdraw_uint256_bool_errors:
  assumes "fst (withdraw_uint256_bool e amountPrincipal claimRewards s) = Some err"
  shows "err = Panic \<or> err = CustodyTransferFailed \<or>
         (\<exists>idle. err = InsufficientBalance idle amountPrincipal \<and> idle < amountPrincipal)"
  using assms
  by (auto simp: withdraw_uint256_bool_def withdraw_uint256_bool_body_def transact_def Let_def
      split: if_splits option.splits outcome.splits dest: updateRewards_Reverted_Panic)

lemma withdraw_uint256_errors:
  assumes "fst (withdraw_uint256 e amount s) = Some err"
  shows "err = Panic \<or> err = CustodyTransferFailed \<or> err = InvalidAmount \<or>
         (\<exists>st. err = InsufficientBalance st amount)"
  using assms
  by (auto simp: withdraw_uint256_def withdraw_uint256_body_def transact_def Let_def
      split: if_splits option.splits)

text \<open>
  Claim C4, as amended.  While \<open>paused\<close> holds, \<open>stake\<close> fails with the pause error
  of \<^verbatim>\<open>whenNotPaused\<close>, whatever the amount.  Neither withdrawal ever fails with that
  error.  \<open>withdraw(uint256,bool)\<close> succeeds whenever the idle balance covers the
  principal, the accrual commit of the call and the sum paid out stay within 256 bits,
  and the token carries out the transfer.  \<open>withdraw(uint256)\<close> succeeds whenever the
  amount is nonzero and at most \<open>staked\<close>, the ledger is consistent
  (\<open>staked \<le> deposited\<close>, \<open>staked \<le> totalStaked\<close>, \<open>stakeStart \<le> now\<close>), the reward
  arithmetic stays within 256 bits, and the token carries out the transfer.
\<close>

theorem pause_gates_stake_not_withdrawals:
  assumes "paused s"
  shows "stake e amount s = (Some EnforcedPause, s) \<and>
    fst (withdraw_uint256_bool e amountPrincipal claimRewards s) \<noteq> Some EnforcedPause \<and>
    fst (withdraw_uint256 e amountAnnual s) \<noteq> Some EnforcedPause \<and>
    (staked (accounts s (sender e)) + amountPrincipal \<le> deposited (accounts s (sender e)) \<and>
     updateRewards e (sender e) s = Done s0 \<and>
     amountPrincipal + (if claimRewards then rewardsAccrued (accounts s0 (sender e)) else 0)
       < UINT256_RANGE \<and>
     custodyOk e
     \<longrightarrow> fst (withdraw_uint256_bool e amountPrincipal claimRewards s) = None) \<and>
    (let acct = accounts s (sender e);
         duration = (if stakeStart acct = 0 then 0 else timestamp e - stakeStart acct);
         rewards = amountAnnual * ANNUAL_RATE_BPS * duration div (SECONDS_PER_YEAR * 10000)
     in amountAnnual \<noteq> 0 \<and> amountAnnual \<le> staked acct \<and>
        staked acct \<le> deposited acct \<and> staked acct \<le> totalStaked s \<and>
        stakeStart acct \<le> timestamp e \<and>
        amountAnnual * ANNUAL_RATE_BPS < UINT256_RANGE \<and>
        amountAnnual * ANNUAL_RATE_BPS * duration < UINT256_RANGE \<and>
        amountAnnual + rewards < UINT256_RANGE \<and>
        custodyOk e
        \<longrightarrow> fst (withdraw_uint256 e amountAnnual s) = None)"
proof -
  have 1: "stake e amount s = (Some EnforcedPause, s)"
    using assms by (simp add: stake_def stake_body_def transact_def)
  have 2: "fst (withdraw_uint256_bool e amountPrincipal claimRewards s) \<noteq> Some EnforcedPause"
    using withdraw_uint256_bool_errors [of e amountPrincipal claimRewards s EnforcedPause]
    by auto
  have 3: "fst (withdraw_uint256 e amountAnnual s) \<noteq> Some EnforcedPause"
    using withdraw_uint256_errors [of e amountAnnual s EnforcedPause] by auto
  have 4: "fst (withdraw_uint256_bool e amountPrincipal claimRewards s) = None"
    if "staked (accounts s (sender e)) + amountPrincipal \<le> deposited (accounts s (sender e))"
      and "updateRewards e (sender e) s = Done s0"
      and "amountPrincipal + (if claimRewards then rewardsAccrued (accounts s0 (sender e)) else 0)
        < UINT256_RANGE"
      and "custodyOk e"
    using withdraw_uint256_bool_success [OF that(1) that(2) refl that(3) that(4)] by simp
  have 5: "fst (withdraw_uint256 e amountAnnual s) = None"
    if "amountAnnual \<noteq> 0" and "amountAnnual \<le> staked (accounts s (sender e))"
      and "staked (accounts s (sender e)) \<le> deposited (accounts s (sender e))"
      and "staked (accounts s (sender e)) \<le> totalStaked s"
      and "stakeStart (accounts s (sender e)) \<le> timestamp e"
      and "amountAnnual * ANNUAL_RATE_BPS < UINT256_RANGE"
      and "amountAnnual * ANNUAL_RATE_BPS *
            (if stakeStart (accounts s (sender e)) = 0 then 0
             else timestamp e - stakeStart (accounts s (sender e))) < UINT256_RANGE"
      and "amountAnnual + amountAnnual * ANNUAL_RATE_BPS *
            (if stakeStart (accounts s (sender e)) = 0 then 0
             else timestamp e - stakeStart (accounts s (sender e)))
            div (SECONDS_PER_YEAR * 10000) < UINT256_RANGE"
      and "custodyOk e"
    using withdraw_uint256_success [OF that(1-5) refl refl that(6-9)] by simp
  show ?thesis
    using 1 2 3 4 5 by (simp add: Let_def)
qed

lemma example_commit_121:
  "updateRewards (at_time 7 121) 7 (example_state\<lparr>paused := b\<rparr>) =
     Done (storeAccount 7
       \<lparr>deposited = 10, staked = 7, rewardsAccrued = 44, lastUpdate = 121,
        stakeStart = 100, rewardRemainder = 100000000000000000\<rparr>
       (emit (RewardsAccrued 7 44) (example_state\<lparr>paused := b\<rparr>)))"
  by (simp add: updateRewards_def example_state_def at_time_def checked_sub_def
      checked_mul_def checked_add_def UINT256_RANGE_def SCALE_def Let_def storeAccount_def
      emit_def perform_def)

theorem pause_gates_stake_not_withdrawals_witness:
  "stake (at_time 7 121) 1 (example_state\<lparr>paused := True\<rparr>)
     = (Some EnforcedPause, example_state\<lparr>paused := True\<rparr>) \<and>
   fst (withdraw_uint256_bool (at_time 7 121) 3 True (example_state\<lparr>paused := True\<rparr>)) = None \<and>
   fst (withdraw_uint256 (at_time 7 121) 5 (example_state\<lparr>paused := True\<rparr>)) = None"
proof -
  let ?s = "example_state\<lparr>paused := True\<rparr>"
  let ?committed = "storeAccount 7
       \<lparr>deposited = 10, staked = 7, rewardsAccrued = 44, lastUpdate = 121,
        stakeStart = 100, rewardRemainder = 100000000000000000\<rparr>
       (emit (RewardsAccrued 7 44) ?s)"
  have p: "paused ?s" by simp
  have a: "staked (accounts ?s (sender (at_time 7 121))) + 3
      \<le> deposited (accounts ?s (sender (at_time 7 121))) \<and>
     updateRewards (at_time 7 121) (sender (at_time 7 121)) ?s = Done ?committed \<and>
     3 + (if True then rewardsAccrued (accounts ?committed (sender (at_time 7 121))) else 0)
       < UINT256_RANGE \<and>
     custodyOk (at_time 7 121)"
    using example_commit_121 [of True]
    by (simp add: at_time_def example_state_def storeAccount_def UINT256_RANGE_def)
  have b: "(let acct = accounts ?s (sender (at_time 7 121));
         duration = (if stakeStart acct = 0 then 0 else timestamp (at_time 7 121) - stakeStart acct);
         rewards = 5 * ANNUAL_RATE_BPS * duration div (SECONDS_PER_YEAR * 10000)
     in (5::nat) \<noteq> 0 \<and> 5 \<le> staked acct \<and>
        staked acct \<le> deposited acct \<and> staked acct \<le> totalStaked ?s \<and>
        stakeStart acct \<le> timestamp (at_time 7 121) \<and>
        5 * ANNUAL_RATE_BPS < UINT256_RANGE \<and>
        5 * ANNUAL_RATE_BPS * duration < UINT256_RANGE \<and>
        5 + rewards < UINT256_RANGE \<and>
        custodyOk (at_time 7 121))"
    by (simp add: at_time_def example_state_def UINT256_RANGE_def ANNUAL_RATE_BPS_def
        SECONDS_PER_YEAR_def Let_def)
  from pause_gates_stake_not_withdrawals [OF p, of "at_time 7 121" 1 3 True 5 ?committed] a b
  show ?thesis by (simp add: Let_def)
qed

text \<open>
  Against claim C4 as stated, which lets each withdrawal succeed on sufficient idle or
  staked balance alone.  In \<open>overflow_state\<close>, paused by the admin, account \<open>7\<close> has 8
  idle units and asks for 5 one second after its stake, with a cooperating token: the
  commit multiplies \<open>staked = 2\<close> by the rate \<open>2 ^ 255\<close>, the product leaves 256 bits
  and the call reverts with a panic.  And in the paused \<open>example_state\<close> a withdrawal
  of 3 idle units reverts when the token refuses the transfer.
\<close>

theorem pause_overflow_traps_withdrawal_counterexample:
  "paused (snd (exec (at_time 9 100) CallPause overflow_state)) \<and>
   staked (accounts (snd (exec (at_time 9 100) CallPause overflow_state)) 7) + 5
     \<le> deposited (accounts (snd (exec (at_time 9 100) CallPause overflow_state)) 7) \<and>
   custodyOk (at_time 7 101) \<and>
   fst (withdraw_uint256_bool (at_time 7 101) 5 False
          (snd (exec (at_time 9 100) CallPause overflow_state))) = Some Panic \<and>
   fst (withdraw_uint256_bool (at_time 7 101\<lparr>custodyOk := False\<rparr>) 3 False
          (example_state\<lparr>paused := True\<rparr>)) = Some CustodyTransferFailed"
  by (simp add: withdraw_uint256_bool_def withdraw_uint256_bool_body_def updateRewards_def
      pause_def pause_body_def transact_def at_time_def overflow_state_def example_state_def
      emit_def perform_def storeAccount_def Let_def checked_sub_def checked_mul_def
      checked_add_def UINT256_RANGE_def SCALE_def)

section \<open>C10: claiming rewards with a zero principal\<close>

text \<open>
  Claim C10, as amended.  \<open>withdraw(0, true)\<close> never fails with \<open>InvalidAmount\<close>.
  Whenever it succeeds, it has committed the accrual, it leaves \<open>deposited\<close> and
  \<open>staked\<close> of the caller unchanged, it pays out exactly the \<open>rewardsAccrued\<close> that
  the commit left and reports it in \<open>Withdrawn\<close>, and it leaves \<open>rewardsAccrued = 0\<close>.
  It succeeds for every account with \<open>staked \<le> deposited\<close> whose commit goes through
  with a balance that fits 256 bits, when the token carries out the transfer.
\<close>

theorem zero_principal_claim:
  "fst (withdraw_uint256_bool e 0 True s) \<noteq> Some InvalidAmount \<and>
   (withdraw_uint256_bool e 0 True s = (None, s') \<longrightarrow>
      (\<exists>s0. updateRewards e (sender e) s = Done s0 \<and>
         deposited (accounts s' (sender e)) = deposited (accounts s (sender e)) \<and>
         staked (accounts s' (sender e)) = staked (accounts s (sender e)) \<and>
         rewardsAccrued (accounts s' (sender e)) = 0 \<and>
         effects s' = effects s0 @
           [SafeTransfer (STAKING_TOKEN s) (sender e) (rewardsAccrued (accounts s0 (sender e))),
            Emit (Withdrawn (sender e) 0 (rewardsAccrued (accounts s0 (sender e))))])) \<and>
   (staked (accounts s (sender e)) \<le> deposited (accounts s (sender e)) \<and>
    updateRewards e (sender e) s = Done s1 \<and>
    rewardsAccrued (accounts s1 (sender e)) < UINT256_RANGE \<and>
    custodyOk e
    \<longrightarrow> fst (withdraw_uint256_bool e 0 True s) = None)"
proof -
  have 1: "fst (withdraw_uint256_bool e 0 True s) \<noteq> Some InvalidAmount"
    using withdraw_uint256_bool_errors [of e 0 True s InvalidAmount] by auto
  have 2: "\<exists>s0. updateRewards e (sender e) s = Done s0 \<and>
         deposited (accounts s' (sender e)) = deposited (accounts s (sender e)) \<and>
         staked (accounts s' (sender e)) = staked (accounts s (sender e)) \<and>
         rewardsAccrued (accounts s' (sender e)) = 0 \<and>
         effects s' = effects s0 @
           [SafeTransfer (STAKING_TOKEN s) (sender e) (rewardsAccrued (accounts s0 (sender e))),
            Emit (Withdrawn (sender e) 0 (rewardsAccrued (accounts s0 (sender e))))]"
    if w: "withdraw_uint256_bool e 0 True s = (None, s')"
  proof -
    from withdraw_uint256_bool_Done [OF w]
    obtain s0 where u0: "updateRewards e (sender e) s = Done s0"
      and idle: "staked (accounts s (sender e)) + 0 \<le> deposited (accounts s (sender e))"
      and fits: "0 + (if True then rewardsAccrued (accounts s0 (sender e)) else 0) < UINT256_RANGE"
      and ok: "custodyOk e"
      by blast
    note f = updateRewards_frame(7,8) [OF u0]
    from withdraw_uint256_bool_success [OF idle u0 refl fits ok] w
    have "s' = emit (Withdrawn (sender e) 0 (rewardsAccrued (accounts s0 (sender e))))
        (perform (SafeTransfer (STAKING_TOKEN s) (sender e)
                    (0 + rewardsAccrued (accounts s0 (sender e))))
          (storeAccount (sender e)
            ((accounts s0 (sender e))
               \<lparr>deposited := deposited (accounts s (sender e)) - 0, rewardsAccrued := 0\<rparr>)
            s0))"
      by simp
    then show ?thesis
      using u0 f by (simp add: emit_def perform_def storeAccount_def)
  qed
  have 3: "fst (withdraw_uint256_bool e 0 True s) = None"
    if "staked (accounts s (sender e)) \<le> deposited (accounts s (sender e))"
      and "updateRewards e (sender e) s = Done s1"
      and "rewardsAccrued (accounts s1 (sender e)) < UINT256_RANGE"
      and "custodyOk e"
    using withdraw_uint256_bool_success [OF _ that(2) refl _ that(4), of 0 True] that(1,3)
    by simp
  show ?thesis using 1 2 3 by blast
qed

theorem zero_principal_claim_witness:
  "fst (withdraw_uint256_bool (at_time 7 121) 0 True example_state) = None \<and>
   rewardsAccrued (accounts (snd (withdraw_uint256_bool (at_time 7 121) 0 True example_state)) 7) = 0 \<and>
   deposited (accounts (snd (withdraw_uint256_bool (at_time 7 121) 0 True example_state)) 7) = 10 \<and>
   staked (accounts (snd (withdraw_uint256_bool (at_time 7 121) 0 True example_state)) 7) = 7 \<and>
   effects (snd (withdraw_uint256_bool (at_time 7 121) 0 True example_state))
     = effects example_state @
       [Emit (RewardsAccrued 7 44), SafeTransfer 1 7 44, Emit (Withdrawn 7 0 44)]"
proof -
  let ?e = "at_time 7 121"
  let ?r = "withdraw_uint256_bool ?e 0 True example_state"
  let ?committed = "storeAccount 7
       \<lparr>deposited = 10, staked = 7, rewardsAccrued = 44, lastUpdate = 121,
        stakeStart = 100, rewardRemainder = 100000000000000000\<rparr>
       (emit (RewardsAccrued 7 44) example_state)"
  have u: "updateRewards ?e (sender ?e) example_state = Done ?committed"
    using example_commit_121 [of False]
    by (simp add: example_state_def at_time_def)
  have pre: "staked (accounts example_state (sender ?e)) \<le> deposited (accounts example_state (sender ?e)) \<and>
    updateRewards ?e (sender ?e) example_state = Done ?committed \<and>
    rewardsAccrued (accounts ?committed (sender ?e)) < UINT256_RANGE \<and> custodyOk ?e"
    using u by (simp add: example_state_def at_time_def storeAccount_def UINT256_RANGE_def)
  note z = zero_principal_claim [of ?e example_state "snd ?r" ?committed]
  from z pre have ok: "fst ?r = None" by blast
  then have "?r = (None, snd ?r)" by (metis prod.collapse)
  with z obtain s0 where u0: "updateRewards ?e (sender ?e) example_state = Done s0"
    and rest: "deposited (accounts (snd ?r) (sender ?e)) = deposited (accounts example_state (sender ?e))"
      "staked (accounts (snd ?r) (sender ?e)) = staked (accounts example_state (sender ?e))"
      "rewardsAccrued (accounts (snd ?r) (sender ?e)) = 0"
      "effects (snd ?r) = effects s0 @
           [SafeTransfer (STAKING_TOKEN example_state) (sender ?e) (rewardsAccrued (accounts s0 (sender ?e))),
            Emit (Withdrawn (sender ?e) 0 (rewardsAccrued (accounts s0 (sender ?e))))]"
    by blast
  from u u0 have s0: "s0 = ?committed" by simp
  show ?thesis
    using ok rest unfolding s0
    by (simp add: example_state_def at_time_def storeAccount_def emit_def perform_def)
qed

text \<open>
  Against claim C10 as stated, which lets the call succeed for every account: in
  \<open>overflow_state\<close>, one second after the stake and with a cooperating token, the
  commit overflows and \<open>withdraw(0, true)\<close> reverts with a panic.
\<close>

theorem zero_principal_claim_overflow_counterexample:
  "staked (accounts overflow_state 7) \<le> deposited (accounts overflow_state 7) \<and>
   custodyOk (at_time 7 101) \<and>
   withdraw_uint256_bool (at_time 7 101) 0 True overflow_state = (Some Panic, overflow_state)"
  by (simp add: withdraw_uint256_bool_def withdraw_uint256_bool_body_def updateRewards_def
      transact_def at_time_def overflow_state_def
      emit_def perform_def storeAccount_def Let_def checked_sub_def checked_mul_def
      checked_add_def UINT256_RANGE_def SCALE_def)
section \<open>C9: a new rate applies to the time already elapsed\<close>

lemma pendingRewards_accrue:
  assumes S: "0 < staked (accounts s u)"
    and lt: "lastUpdate (accounts s u) < timestamp e"
    and x: "x = staked (accounts s u) * rewardRate s * (timestamp e - lastUpdate (accounts s u))
           + rewardRemainder (accounts s u)"
    and xr: "x < UINT256_RANGE"
    and xa: "rewardsAccrued (accounts s u) + x div SCALE < UINT256_RANGE"
  shows "pendingRewards e u s = Inr (rewardsAccrued (accounts s u) + x div SCALE)"
proof -
  let ?a = "accounts s u"
  let ?d = "timestamp e - lastUpdate ?a"
  have d: "0 < ?d" using lt by simp
  have le1: "staked ?a * rewardRate s \<le> staked ?a * rewardRate s * ?d"
    using d by (cases "timestamp e - lastUpdate (accounts s u)") simp_all
  have le2: "staked ?a * rewardRate s * ?d \<le> x" using x by simp
  have sub: "checked_sub (timestamp e) (lastUpdate ?a) = Some ?d"
    using lt by (simp add: checked_sub_def)
  have m1: "checked_mul (staked ?a) (rewardRate s) = Some (staked ?a * rewardRate s)"
  proof -
    have "staked ?a * rewardRate s < UINT256_RANGE"
      using le1 le2 xr by (rule_tac le_less_trans [OF le_trans])
    then show ?thesis by (simp add: checked_mul_def)
  qed
  have m2: "checked_mul (staked ?a * rewardRate s) ?d = Some (staked ?a * rewardRate s * ?d)"
  proof -
    have "staked ?a * rewardRate s * ?d < UINT256_RANGE"
      using le2 xr by (rule le_less_trans)
    then show ?thesis by (simp add: checked_mul_def)
  qed
  have m3: "checked_add (staked ?a * rewardRate s * ?d) (rewardRemainder ?a) = Some x"
    using xr x by (simp add: checked_add_def)
  have m4: "checked_add (rewardsAccrued ?a) (x div SCALE) = Some (rewardsAccrued ?a + x div SCALE)"
    using xa by (simp add: checked_add_def)
  show ?thesis
    using S by (simp add: pendingRewards_def sub m1 m2 m3 m4 Let_def)
qed

text \<open>
  Claim C9.  Take an account with a stake and a last checkpoint before the time of
  \<open>e\<close>.  A call of \<open>setRewardRate newRate\<close> by an admin, at whatever time, commits no
  account: it leaves \<open>lastUpdate\<close>, \<open>rewardsAccrued\<close> and \<open>rewardRemainder\<close> as they
  were.  So \<open>pendingRewards\<close> and the next commit at the time of \<open>e\<close> credit
  \<open>staked * newRate * (now - lastUpdate)\<close> over the whole interval since the last
  checkpoint, the part before the rate change included (within 256 bits).
\<close>

theorem setRewardRate_applies_to_elapsed_time:
  assumes admin: "adminRole s (sender ea)"
    and stk: "0 < staked (accounts s u)"
    and touched: "lastUpdate (accounts s u) \<noteq> 0"
    and elapsed: "lastUpdate (accounts s u) < timestamp e"
    and x: "x = staked (accounts s u) * newRate * (timestamp e - lastUpdate (accounts s u))
           + rewardRemainder (accounts s u)"
    and xr: "x < UINT256_RANGE"
    and xa: "rewardsAccrued (accounts s u) + x div SCALE < UINT256_RANGE"
  shows "\<exists>s1 s2. setRewardRate ea newRate s = (None, s1) \<and>
           accounts s1 = accounts s \<and> rewardRate s1 = newRate \<and>
           pendingRewards e u s1 = Inr (rewardsAccrued (accounts s u) + x div SCALE) \<and>
           updateRewards e u s1 = Done s2 \<and>
           rewardsAccrued (accounts s2 u) = rewardsAccrued (accounts s u) + x div SCALE \<and>
           rewardRemainder (accounts s2 u) = x mod SCALE"
proof -
  define s1 where "s1 = emit (RewardRateUpdated (rewardRate s) newRate) (s\<lparr>rewardRate := newRate\<rparr>)"
  have a: "setRewardRate ea newRate s = (None, s1)"
    using admin by (simp add: setRewardRate_def setRewardRate_body_def transact_def s1_def)
  have acc: "accounts s1 = accounts s" and rate: "rewardRate s1 = newRate"
    by (simp_all add: s1_def emit_def perform_def)
  have x1: "x = staked (accounts s1 u) * rewardRate s1 * (timestamp e - lastUpdate (accounts s1 u))
           + rewardRemainder (accounts s1 u)"
    using x by (simp add: acc rate)
  have p: "pendingRewards e u s1 = Inr (rewardsAccrued (accounts s u) + x div SCALE)"
    using pendingRewards_accrue [of s1 u e x] stk elapsed x1 xr xa by (simp add: acc)
  define s2 where "s2 = storeAccount u ((accounts s1 u)\<lparr>rewardRemainder := x mod SCALE,
             rewardsAccrued := rewardsAccrued (accounts s1 u) + x div SCALE, lastUpdate := timestamp e\<rparr>)
            (if 0 < x div SCALE then emit (RewardsAccrued u (x div SCALE)) s1 else s1)"
  have c: "updateRewards e u s1 = Done s2"
    using updateRewards_accrue [of s1 u e x s2] touched stk elapsed x1 xr xa
    by (simp add: acc s2_def)
  have d: "rewardsAccrued (accounts s2 u) = rewardsAccrued (accounts s u) + x div SCALE"
    "rewardRemainder (accounts s2 u) = x mod SCALE"
    by (simp_all add: s2_def storeAccount_def emit_def perform_def acc)
  show ?thesis using a acc rate p c d by blast
qed

theorem setRewardRate_applies_to_elapsed_time_witness:
  "pendingRewards (at_time 7 121) 7 example_state = Inr 44 \<and>
   (\<exists>s1 s2. setRewardRate (at_time 9 120) 1000000000000000000 example_state = (None, s1) \<and>
      pendingRewards (at_time 7 121) 7 s1 = Inr 147 \<and>
      updateRewards (at_time 7 121) 7 s1 = Done s2 \<and>
      rewardsAccrued (accounts s2 7) = 147 \<and> rewardRemainder (accounts s2 7) = 0)"
proof -
  have old: "pendingRewards (at_time 7 121) 7 example_state = Inr 44"
    by (simp add: pendingRewards_def example_state_def at_time_def checked_sub_def
        checked_mul_def checked_add_def UINT256_RANGE_def SCALE_def Let_def)
  have admin: "adminRole example_state (sender (at_time 9 120))"
    by (simp add: example_state_def at_time_def)
  have stk: "0 < staked (accounts example_state 7)"
    and touched: "lastUpdate (accounts example_state 7) \<noteq> 0"
    and elapsed: "lastUpdate (accounts example_state 7) < timestamp (at_time 7 121)"
    by (simp_all add: example_state_def at_time_def)
  have x: "147000000000000000000 = staked (accounts example_state 7) * 1000000000000000000 *
      (timestamp (at_time 7 121) - lastUpdate (accounts example_state 7))
      + rewardRemainder (accounts example_state 7)"
    by (simp add: example_state_def at_time_def)
  have xr: "(147000000000000000000::nat) < UINT256_RANGE"
    by (simp add: UINT256_RANGE_def)
  have xa: "rewardsAccrued (accounts example_state 7) + 147000000000000000000 div SCALE
      < UINT256_RANGE"
    by (simp add: example_state_def UINT256_RANGE_def SCALE_def)
  from setRewardRate_applies_to_elapsed_time [OF admin stk touched elapsed x xr xa]
  have "\<exists>s1 s2. setRewardRate (at_time 9 120) 1000000000000000000 example_state = (None, s1) \<and>
      pendingRewards (at_time 7 121) 7 s1 = Inr 147 \<and>
      updateRewards (at_time 7 121) 7 s1 = Done s2 \<and>
      rewardsAccrued (accounts s2 7) = 147 \<and> rewardRemainder (accounts s2 7) = 0"
    by (auto simp: example_state_def SCALE_def)
  with old show ?thesis by blast
qed

end
